theory Spec2Isabelle
  imports Main "HOL-Library.Word"
begin

unbundle bit_operations_syntax

section \<open>Shared types\<close>

type_synonym byte = "8 word"
type_synonym uint64 = "64 word"

text \<open>
  Go's \<open>error\<close> values, one constructor for each error the modelled code creates or
  receives. \<open>ErrUidInUse uid recommended\<close> is the error of \<open>AddUid\<close>, whose message
  names the rejected uid and the recommended one.
\<close>

datatype error =
    ErrUidInUse uint64 uint64
  | ErrTimedOut
  | EOF
  | ErrUnexpectedEOF
  | ErrShortWrite
  | ErrInvalidWrite
  | ErrSyntax
  | ErrRange
  | ErrInvalidByte char
  | ErrLength
  | ErrKeySize nat
  | ErrIO string
  | ErrReadIV error
  | ErrDecrypt error
  | ErrNilDereference
  | ErrIndexOutOfRange
  | ErrNilMap
  | NumError string string error

text \<open>A call either panics, with the value it panics on, or returns.\<close>

datatype 'a outcome = Panic error | Return 'a

section \<open>Package uid: the UidTracker\<close>

text \<open>
  \<open>UidTracker\<close> holds the Go map \<open>uids map[uint64]bool\<close>. The map of the zero value
  \<open>UidTracker{}\<close> is \<open>nil\<close> (here \<open>None\<close>) until \<open>Init\<close> makes one. Every method takes
  the mutex for its whole body, so each call is one atomic step on the map and the lock
  is not part of the state.
\<close>

record UidTracker =
  uids :: "(uint64 \<rightharpoonup> bool) option"

text \<open>
  Reading an entry, \<open>_, ok := t.uids[k]\<close>: a \<open>nil\<close> map has no entries. Writing an entry,
  \<open>t.uids[k] = true\<close>: on a \<open>nil\<close> map the assignment panics.
\<close>

definition lookup :: "UidTracker \<Rightarrow> uint64 \<Rightarrow> bool option" where
  "lookup t k = (case uids t of None \<Rightarrow> None | Some m \<Rightarrow> m k)"

definition assign :: "UidTracker \<Rightarrow> uint64 \<Rightarrow> UidTracker outcome" where
  "assign t k =
     (case uids t of
        None \<Rightarrow> Panic ErrNilMap
      | Some m \<Rightarrow> Return (t\<lparr>uids := Some (m(k \<mapsto> True))\<rparr>))"

text \<open>
  \<open>math/rand/v2\<close> is a global generator. Its state is the sequence of values that the
  successive calls of \<open>rand.Uint64()\<close> return and how many of them have been used.
\<close>

record Rand =
  draws :: "nat \<Rightarrow> uint64"
  used :: nat

definition Uint64 :: "Rand \<Rightarrow> uint64 \<times> Rand" where
  "Uint64 g = (draws g (used g), g\<lparr>used := Suc (used g)\<rparr>)"

text \<open>A \<open>context.Context\<close>, as far as the tracker reads it: whether \<open>ctx.Done()\<close> is closed.\<close>

record Context =
  Done :: bool

text \<open>
  The inner \<open>for\<close> loop of \<open>AddUid\<close>: draw until a value outside the map comes up.
  The loop has no bound, so not returning is the value \<open>None\<close>.
\<close>

partial_function (option) recommend :: "UidTracker \<Rightarrow> Rand \<Rightarrow> (uint64 \<times> Rand) option" where
  "recommend t g =
     (let recommended = fst (Uint64 g); g' = snd (Uint64 g)
      in if lookup t recommended = None then Some (recommended, g') else recommend t g')"

definition AddUid ::
  "UidTracker \<Rightarrow> Rand \<Rightarrow> uint64 \<Rightarrow>
   ((uint64 \<times> error option) \<times> UidTracker \<times> Rand) outcome option" where
  "AddUid t g uid =
     (if lookup t uid \<noteq> None then
        (case recommend t g of
           None \<Rightarrow> None
         | Some (recommended, g') \<Rightarrow>
             Some (Return ((0, Some (ErrUidInUse uid recommended)), t, g')))
      else
        (case assign t uid of
           Panic e \<Rightarrow> Some (Panic e)
         | Return t' \<Rightarrow> Some (Return ((uid, None), t', g))))"

definition Init :: "UidTracker \<Rightarrow> uint64 list \<Rightarrow> UidTracker" where
  "Init t initialElems =
     t\<lparr>uids := Some (fold (\<lambda>elem m. m(elem \<mapsto> True)) initialElems Map.empty)\<rparr>"

definition GenerateAndAdd ::
  "UidTracker \<Rightarrow> Rand \<Rightarrow> Context \<Rightarrow>
   ((uint64 \<times> error option) \<times> UidTracker \<times> Rand) outcome" where
  "GenerateAndAdd t g ctx =
     (if Done ctx then Return ((0, Some ErrTimedOut), t, g)
      else
        (let try = fst (Uint64 g); g' = snd (Uint64 g)
         in if lookup t try = None then
              (case assign t try of
                 Panic e \<Rightarrow> Panic e
               | Return t' \<Rightarrow> Return ((try, None), t', g'))
            else Return ((0, None), t, g')))"

definition Contains :: "UidTracker \<Rightarrow> uint64 \<Rightarrow> bool" where
  "Contains t elem = (lookup t elem \<noteq> None)"


definition empty_tracker :: UidTracker where
  "empty_tracker = \<lparr>uids = Some Map.empty\<rparr>"

definition const_rand :: "uint64 \<Rightarrow> Rand" where
  "const_rand v = \<lparr>draws = (\<lambda>_. v), used = 0\<rparr>"

definition seq_rand :: "uint64 list \<Rightarrow> Rand" where
  "seq_rand vs = \<lparr>draws = (\<lambda>n. if n < length vs then vs ! n else 0), used = 0\<rparr>"

text \<open>The tracker of the package's tests: \<open>Init\<close> on the slice of \<open>TestGenerateAndAdd\<close>.\<close>

definition test_tracker :: UidTracker where
  "test_tracker = Init empty_tracker [32, 48, 12939303003, 326, 129393030031]"

section \<open>Package io\<close>

text \<open>
  Go's standard library is not part of the repository; the functions the repository calls
  are modelled from their documented behaviour.

  An \<open>io.Reader\<close> is the list of chunks that its successive \<open>Read\<close> calls deliver and
  the error it reports once the chunks are used up (\<open>EOF\<close> for a clean end). Any chunking
  of a byte stream is a reader, so a property proved for every \<open>Reader\<close> does not depend on
  how the bytes arrive.
\<close>

record Reader =
  chunks :: "byte list list"
  rerr :: error

text \<open>
  \<open>Read r n\<close> is \<open>r.Read(buf)\<close> with \<open>len(buf) = n\<close>: at most \<open>n\<close> bytes of the next chunk;
  the rest of a longer chunk stays for the next call.
\<close>

definition Read :: "Reader \<Rightarrow> nat \<Rightarrow> (byte list \<times> error option) \<times> Reader" where
  "Read r n =
     (case chunks r of
        [] \<Rightarrow> (([], Some (rerr r)), r)
      | c # cs \<Rightarrow>
          if length c \<le> n then ((c, None), r\<lparr>chunks := cs\<rparr>)
          else ((take n c, None), r\<lparr>chunks := drop n c # cs\<rparr>))"

text \<open>What is left of a reader, counted so that every successful \<open>Read\<close> makes it smaller.\<close>

definition rsize :: "Reader \<Rightarrow> nat" where
  "rsize r = sum_list (map (\<lambda>c. Suc (length c)) (chunks r))"

text \<open>
  \<open>io.ReadAtLeast\<close>, with the bytes read so far as an argument: it reads until \<open>min0\<close>
  bytes are there or an error comes. \<open>io.ReadFull(r, buf)\<close> is \<open>ReadAtLeast\<close> with the
  length of \<open>buf\<close>.
\<close>

function ReadAtLeast :: "Reader \<Rightarrow> byte list \<Rightarrow> nat \<Rightarrow> (byte list \<times> error option) \<times> Reader" where
  "ReadAtLeast r got min0 =
     (if length got < min0 then
        (case Read r (min0 - length got) of
           ((bs, None), r') \<Rightarrow> ReadAtLeast r' (got @ bs) min0
         | ((bs, Some err), r') \<Rightarrow>
             (if length (got @ bs) \<ge> min0 then ((got @ bs, None), r')
              else if length (got @ bs) > 0 \<and> err = EOF then ((got @ bs, Some ErrUnexpectedEOF), r')
              else ((got @ bs, Some err), r')))
      else ((got, None), r))"
  by pat_completeness auto
termination
proof (relation "measure (\<lambda>(r, got, min0). rsize r)", goal_cases)
  case 1
  show ?case by simp
next
  case (2 r got min0 x1 r' bs e)
  then show ?case
    by (auto simp: Read_def rsize_def split: list.splits if_splits)
qed

declare ReadAtLeast.simps [simp del]

definition ReadFull :: "Reader \<Rightarrow> nat \<Rightarrow> (byte list \<times> error option) \<times> Reader" where
  "ReadFull r n = ReadAtLeast r [] n"

text \<open>
  The loop of \<open>io.Copy\<close> with its buffer of \<open>32 * 1024\<close> bytes, for a destination and a
  source given by their \<open>Write\<close> and \<open>Read\<close> methods. On a source that never reports an
  error the loop does not end, so it is a partial function.
\<close>

partial_function (option) copyBuffer ::
  "('w \<Rightarrow> byte list \<Rightarrow> (nat \<times> error option) \<times> 'w) \<Rightarrow>
   ('r \<Rightarrow> nat \<Rightarrow> (byte list \<times> error option) \<times> 'r) \<Rightarrow>
   'w \<Rightarrow> 'r \<Rightarrow> nat \<Rightarrow> ((nat \<times> error option) \<times> 'w \<times> 'r) option" where
  "copyBuffer dstWrite srcRead dst src written =
     (case srcRead src (32 * 1024) of
        ((buf, er), src') \<Rightarrow>
          if buf \<noteq> [] then
            (case dstWrite dst buf of
               ((nw0, ew0), dst') \<Rightarrow>
                 (let nw = (if length buf < nw0 then 0 else nw0);
                      ew = (if length buf < nw0 \<and> ew0 = None then Some ErrInvalidWrite else ew0);
                      written' = written + nw
                  in if ew \<noteq> None then Some ((written', ew), dst', src')
                     else if length buf \<noteq> nw then Some ((written', Some ErrShortWrite), dst', src')
                     else if er \<noteq> None then
                       Some ((written', if er = Some EOF then None else er), dst', src')
                     else copyBuffer dstWrite srcRead dst' src' written'))
          else if er \<noteq> None then Some ((written, if er = Some EOF then None else er), dst, src')
          else copyBuffer dstWrite srcRead dst src' written)"

definition Copy ::
  "('w \<Rightarrow> byte list \<Rightarrow> (nat \<times> error option) \<times> 'w) \<Rightarrow>
   ('r \<Rightarrow> nat \<Rightarrow> (byte list \<times> error option) \<times> 'r) \<Rightarrow>
   'w \<Rightarrow> 'r \<Rightarrow> ((nat \<times> error option) \<times> 'w \<times> 'r) option" where
  "Copy dstWrite srcRead dst src = copyBuffer dstWrite srcRead dst src 0"

text \<open>\<open>bytes.Buffer\<close> as a writer: the bytes written so far; \<open>Write\<close> appends and cannot fail.\<close>

definition Buffer_Write :: "byte list \<Rightarrow> byte list \<Rightarrow> (nat \<times> error option) \<times> byte list" where
  "Buffer_Write buf p = ((length p, None), buf @ p)"

section \<open>Package crypto/cipher\<close>

text \<open>
  A \<open>cipher.Block\<close> of block size 16 is a function on 128-bit blocks; \<open>Encrypt\<close> reads
  and writes a block as 16 bytes, big-endian. AES itself is not modelled: the block
  function is a parameter.
\<close>

type_synonym Block = "128 word \<Rightarrow> 128 word"

definition block_bytes :: "128 word \<Rightarrow> byte list" where
  "block_bytes w = map (\<lambda>i. ucast (drop_bit (8 * (15 - i)) w)) [0..<16]"

definition bytes_block :: "byte list \<Rightarrow> 128 word" where
  "bytes_block bs = foldl (\<lambda>a x. push_bit 8 a OR ucast x) 0 bs"

definition Encrypt :: "Block \<Rightarrow> byte list \<Rightarrow> byte list" where
  "Encrypt blk src = block_bytes (blk (bytes_block src))"

text \<open>
  The stream returned by \<open>cipher.NewCTR\<close>: the block function, the counter (a copy of the
  IV, incremented as a big-endian number that wraps around) and the key-stream bytes
  produced but not used yet.
\<close>

record ctr =
  blk_fn :: Block
  ctr :: "byte list"
  out :: "byte list"

definition NewCTR :: "Block \<Rightarrow> byte list \<Rightarrow> ctr" where
  "NewCTR blk iv = \<lparr>blk_fn = blk, ctr = iv, out = []\<rparr>"

fun incr_le :: "byte list \<Rightarrow> byte list" where
  "incr_le [] = []"
| "incr_le (x # xs) = (if x + 1 \<noteq> 0 then (x + 1) # xs else (x + 1) # incr_le xs)"

definition incr :: "byte list \<Rightarrow> byte list" where
  "incr c = rev (incr_le (rev c))"

definition refill :: "ctr \<Rightarrow> ctr" where
  "refill x = x\<lparr>out := Encrypt (blk_fn x) (ctr x), ctr := incr (ctr x)\<rparr>"

fun XORKeyStream :: "ctr \<Rightarrow> byte list \<Rightarrow> byte list \<times> ctr" where
  "XORKeyStream x [] = ([], x)"
| "XORKeyStream x (s # src) =
     (let x1 = (if out x = [] then refill x else x);
          x2 = x1\<lparr>out := tl (out x1)\<rparr>;
          (dst, x3) = XORKeyStream x2 src
      in ((s XOR hd (out x1)) # dst, x3))"

text \<open>
  \<open>cipher.StreamWriter\<close> and \<open>cipher.StreamReader\<close>: a stream paired with the writer or
  reader underneath.
\<close>

definition StreamWriter_Write ::
  "('w \<Rightarrow> byte list \<Rightarrow> (nat \<times> error option) \<times> 'w) \<Rightarrow>
   ctr \<times> 'w \<Rightarrow> byte list \<Rightarrow> (nat \<times> error option) \<times> (ctr \<times> 'w)" where
  "StreamWriter_Write Write sw src =
     (case XORKeyStream (fst sw) src of
        (c, S') \<Rightarrow>
          (case Write (snd sw) c of
             ((n, err), W') \<Rightarrow>
               ((n, if n \<noteq> length src \<and> err = None then Some ErrShortWrite else err), (S', W'))))"

definition StreamReader_Read ::
  "ctr \<times> Reader \<Rightarrow> nat \<Rightarrow> (byte list \<times> error option) \<times> (ctr \<times> Reader)" where
  "StreamReader_Read sr n =
     (case Read (snd sr) n of
        ((dst, err), R') \<Rightarrow>
          (case XORKeyStream (fst sr) dst of
             (dst', S') \<Rightarrow> ((dst', err), (S', R'))))"

section \<open>Package encoding/hex and crypto/aes\<close>

text \<open>
  \<open>hex.DecodeString\<close> returns the bytes decoded before the first error together with that
  error: an invalid character, or \<open>ErrLength\<close> for a string of odd length.
  \<open>aes.NewCipher\<close> accepts keys of 16, 24 and 32 bytes only.
\<close>

definition fromHexChar :: "char \<Rightarrow> byte option" where
  "fromHexChar c =
     (let n = (of_char c :: nat)
      in if 48 \<le> n \<and> n \<le> 57 then Some (of_nat (n - 48))
         else if 97 \<le> n \<and> n \<le> 102 then Some (of_nat (n - 97 + 10))
         else if 65 \<le> n \<and> n \<le> 70 then Some (of_nat (n - 65 + 10))
         else None)"

fun Decode :: "string \<Rightarrow> byte list \<times> error option" where
  "Decode [] = ([], None)"
| "Decode [p] = (case fromHexChar p of None \<Rightarrow> ([], Some (ErrInvalidByte p)) | Some a \<Rightarrow> ([], Some ErrLength))"
| "Decode (p # q # rest) =
     (case fromHexChar p of
        None \<Rightarrow> ([], Some (ErrInvalidByte p))
      | Some a \<Rightarrow>
          (case fromHexChar q of
             None \<Rightarrow> ([], Some (ErrInvalidByte q))
           | Some b \<Rightarrow> (case Decode rest of (bs, err) \<Rightarrow> ((push_bit 4 a OR b) # bs, err))))"

definition DecodeString :: "string \<Rightarrow> byte list \<times> error option" where
  "DecodeString s = Decode s"

definition NewCipher :: "(byte list \<Rightarrow> Block) \<Rightarrow> byte list \<Rightarrow> error + Block" where
  "NewCipher aes key =
     (let k = length key
      in if k = 16 \<or> k = 24 \<or> k = 32 then Inr (aes key) else Inl (ErrKeySize k))"

section \<open>Package cryptography\<close>

text \<open>\<open>StreamCipher.block\<close> is \<open>nil\<close> until \<open>Init\<close> has run.\<close>

record StreamCipher =
  block :: "Block option"

text \<open>
  \<open>EncryptStream c rnd writerWrite reader writer\<close>: \<open>rnd\<close> is \<open>crypto/rand.Reader\<close>,
  \<open>writerWrite\<close> the \<open>Write\<close> method of \<open>writer\<close>. The result is the returned error and
  the three streams after the call; \<open>None\<close> stands for a call that does not return.
\<close>

definition EncryptStream ::
  "StreamCipher \<Rightarrow> Reader \<Rightarrow> ('w \<Rightarrow> byte list \<Rightarrow> (nat \<times> error option) \<times> 'w) \<Rightarrow>
   Reader \<Rightarrow> 'w \<Rightarrow> (error option \<times> Reader \<times> Reader \<times> 'w) outcome option" where
  "EncryptStream c rnd writerWrite reader writer =
     (case ReadFull rnd 16 of
        ((iv, Some err), rnd') \<Rightarrow> Some (Return (Some err, rnd', reader, writer))
      | ((iv, None), rnd') \<Rightarrow>
          (case block c of
             None \<Rightarrow> Some (Panic ErrNilDereference)
           | Some blk \<Rightarrow>
               (let stream = NewCTR blk iv
                in case writerWrite writer iv of
                     ((n, Some err), writer') \<Rightarrow> Some (Return (Some err, rnd', reader, writer'))
                   | ((n, None), writer') \<Rightarrow>
                       (case Copy (StreamWriter_Write writerWrite) Read (stream, writer') reader of
                          None \<Rightarrow> None
                        | Some ((written, Some err), sw, reader') \<Rightarrow>
                            Some (Return (Some err, rnd', reader', snd sw))
                        | Some ((written, None), sw, reader') \<Rightarrow>
                            Some (Return (None, rnd', reader', snd sw))))))"

definition DecryptStream ::
  "StreamCipher \<Rightarrow> ('w \<Rightarrow> byte list \<Rightarrow> (nat \<times> error option) \<times> 'w) \<Rightarrow>
   Reader \<Rightarrow> 'w \<Rightarrow> (error option \<times> Reader \<times> 'w) outcome option" where
  "DecryptStream c writerWrite reader writer =
     (case ReadFull reader 16 of
        ((iv, Some err), reader') \<Rightarrow> Some (Return (Some (ErrReadIV err), reader', writer))
      | ((iv, None), reader') \<Rightarrow>
          (case block c of
             None \<Rightarrow> Some (Panic ErrNilDereference)
           | Some blk \<Rightarrow>
               (let stream = NewCTR blk iv
                in case Copy writerWrite StreamReader_Read writer (stream, reader') of
                     None \<Rightarrow> None
                   | Some ((written, Some err), writer', sr) \<Rightarrow>
                       Some (Return (Some (ErrDecrypt err), snd sr, writer'))
                   | Some ((written, None), writer', sr) \<Rightarrow>
                       Some (Return (None, snd sr, writer')))))"

text \<open>
  \<open>Init\<close> of the cipher, with the AES block function of a key as the parameter \<open>aes\<close>.
  The error of \<open>hex.DecodeString\<close> is dropped, as in the source; a failing \<open>aes.NewCipher\<close>
  makes \<open>Init\<close> panic.
\<close>

definition Init_StreamCipher :: "(byte list \<Rightarrow> Block) \<Rightarrow> StreamCipher \<Rightarrow> string \<Rightarrow> StreamCipher outcome" where
  "Init_StreamCipher aes c hexKey =
     (let key = fst (DecodeString hexKey)
      in case NewCipher aes key of
           Inl err \<Rightarrow> Panic err
         | Inr blk \<Rightarrow> Return (c\<lparr>block := Some blk\<rparr>))"

text \<open>An in-memory reader over given bytes, as \<open>bytes.NewReader\<close> gives.\<close>

definition NewReader :: "byte list \<Rightarrow> Reader" where
  "NewReader bs = \<lparr>chunks = [bs], rerr = EOF\<rparr>"

text \<open>
  Counter mode as the textbooks define it: byte \<open>i\<close> of the key stream is byte
  \<open>i mod 16\<close> of the encryption of the IV incremented \<open>i div 16\<close> times, and the
  ciphertext is the plaintext XOR the key stream.
\<close>

definition CTR_keystream :: "Block \<Rightarrow> byte list \<Rightarrow> nat \<Rightarrow> byte" where
  "CTR_keystream blk iv i = Encrypt blk ((incr ^^ (i div 16)) iv) ! (i mod 16)"

definition CTR_xor :: "Block \<Rightarrow> byte list \<Rightarrow> byte list \<Rightarrow> byte list" where
  "CTR_xor blk iv P = map (\<lambda>i. P ! i XOR CTR_keystream blk iv i) [0..<length P]"

text \<open>The key stream that a stream in state \<open>x\<close> is still to produce.\<close>

definition ksf :: "ctr \<Rightarrow> nat \<Rightarrow> byte" where
  "ksf x i =
     (if i < length (out x) then out x ! i
      else Encrypt (blk_fn x) ((incr ^^ ((i - length (out x)) div 16)) (ctr x)) ! ((i - length (out x)) mod 16))"

text \<open>A cipher over a stand-in block function and a random source, to run the model.\<close>

definition test_cipher :: StreamCipher where
  "test_cipher = \<lparr>block = Some (\<lambda>w. w * 3 + 7)\<rparr>"

definition test_rand :: Reader where
  "test_rand = \<lparr>chunks = [[1, 2, 3, 4, 5, 6, 7, 8], [9, 10, 11, 12, 13, 14, 15, 255, 17, 18]], rerr = EOF\<rparr>"

text \<open>A stand-in for the AES key schedule, and the key of the package's test with one digit mistyped.\<close>

definition test_aes :: "byte list \<Rightarrow> Block" where
  "test_aes key = (\<lambda>w. w * 3 + bytes_block (take 16 key))"

definition mistyped_key :: string where
  "mistyped_key = ''6368616e6765207468697320706173737x6f726420746f206120736563726574''"

section \<open>Package strconv\<close>

text \<open>
  \<open>strconv.ParseUint(s, 10, 64)\<close>, \<open>strconv.ParseInt(s, 10, 64)\<close> and
  \<open>strconv.FormatUint(u, 10)\<close>. An \<open>int64\<close> is a 64-bit word read as a signed number.
\<close>

definition maxUint64 :: nat where
  "maxUint64 = 18446744073709551615"

fun ParseUint_loop :: "nat \<Rightarrow> string \<Rightarrow> error + nat" where
  "ParseUint_loop n [] = Inr n"
| "ParseUint_loop n (c # cs) =
     (let d = (of_char c :: nat)
      in if \<not> (48 \<le> d \<and> d \<le> 57) then Inl ErrSyntax
         else if n \<ge> maxUint64 div 10 + 1 then Inl ErrRange
         else if n * 10 + (d - 48) > maxUint64 then Inl ErrRange
         else ParseUint_loop (n * 10 + (d - 48)) cs)"

definition ParseUint :: "string \<Rightarrow> error + uint64" where
  "ParseUint s =
     (if s = [] then Inl (NumError ''ParseUint'' s ErrSyntax)
      else case ParseUint_loop 0 s of
             Inl err \<Rightarrow> Inl (NumError ''ParseUint'' s err)
           | Inr n \<Rightarrow> Inr (of_nat n))"

type_synonym int64 = "64 word"

definition ParseInt :: "string \<Rightarrow> error + int64" where
  "ParseInt s0 =
     (if s0 = [] then Inl (NumError ''ParseInt'' s0 ErrSyntax)
      else
        (let neg = (hd s0 = CHR ''-'');
             s = (if hd s0 = CHR ''+'' \<or> hd s0 = CHR ''-'' then tl s0 else s0)
         in if s = [] then Inl (NumError ''ParseInt'' s0 ErrSyntax)
            else case ParseUint_loop 0 s of
                   Inl ErrRange \<Rightarrow> Inl (NumError ''ParseInt'' s0 ErrRange)
                 | Inl err \<Rightarrow> Inl (NumError ''ParseInt'' s0 err)
                 | Inr un \<Rightarrow>
                     if \<not> neg \<and> un \<ge> 2 ^ 63 then Inl (NumError ''ParseInt'' s0 ErrRange)
                     else if neg \<and> un > 2 ^ 63 then Inl (NumError ''ParseInt'' s0 ErrRange)
                     else Inr (if neg then - of_nat un else of_nat un)))"

function FormatUint_nat :: "nat \<Rightarrow> string" where
  "FormatUint_nat n =
     (if n < 10 then [char_of (48 + n)]
      else FormatUint_nat (n div 10) @ [char_of (48 + n mod 10)])"
  by pat_completeness auto
termination
  by (relation "measure id") auto

declare FormatUint_nat.simps [simp del]

definition FormatUint :: "uint64 \<Rightarrow> string" where
  "FormatUint u = FormatUint_nat (unat u)"

section \<open>Package net/http\<close>

text \<open>
  \<open>http.Header\<close> and \<open>url.Values\<close> are maps from a key to a list of strings. A request is
  its header and the query of its URL.
\<close>

type_synonym Values = "string \<rightharpoonup> string list"

definition Values_Get :: "Values \<Rightarrow> string \<Rightarrow> string" where
  "Values_Get v key = (case v key of None \<Rightarrow> [] | Some [] \<Rightarrow> [] | Some (x # _) \<Rightarrow> x)"

definition Values_Set :: "Values \<Rightarrow> string \<Rightarrow> string \<Rightarrow> Values" where
  "Values_Set v key val = v(key \<mapsto> [val])"

record Request =
  Header :: Values
  Query :: Values

text \<open>
  An \<open>http.ResponseWriter\<close>: the header map under construction, the status code and header
  that went out with the first \<open>WriteHeader\<close> (explicit, or implied by the first \<open>Write\<close>
  with status 200; later calls of \<open>WriteHeader\<close> change nothing), and the body written.
  Writes to the connection are taken to succeed.
\<close>

record ResponseWriter =
  header :: Values
  wroteHeader :: "(nat \<times> Values) option"
  body :: "byte list"

definition NewResponseWriter :: ResponseWriter where
  "NewResponseWriter = \<lparr>header = Map.empty, wroteHeader = None, body = []\<rparr>"

definition WriteHeader :: "ResponseWriter \<Rightarrow> nat \<Rightarrow> ResponseWriter" where
  "WriteHeader w code = (if wroteHeader w = None then w\<lparr>wroteHeader := Some (code, header w)\<rparr> else w)"

definition ResponseWriter_append :: "ResponseWriter \<Rightarrow> byte list \<Rightarrow> ResponseWriter" where
  "ResponseWriter_append w p = (let w' = WriteHeader w 200 in w'\<lparr>body := body w' @ p\<rparr>)"

definition ResponseWriter_Write :: "ResponseWriter \<Rightarrow> byte list \<Rightarrow> (nat \<times> error option) \<times> ResponseWriter" where
  "ResponseWriter_Write w p = ((length p, None), ResponseWriter_append w p)"

definition bytes_of :: "string \<Rightarrow> byte list" where
  "bytes_of s = map (\<lambda>c. of_nat (of_char c)) s"

definition Fprint :: "ResponseWriter \<Rightarrow> string \<Rightarrow> ResponseWriter" where
  "Fprint w s = snd (ResponseWriter_Write w (bytes_of s))"

text \<open>\<open>http.Error\<close> sets two header fields, writes the header with the given code and prints the message.\<close>

definition http_Error :: "ResponseWriter \<Rightarrow> string \<Rightarrow> nat \<Rightarrow> ResponseWriter" where
  "http_Error w msg code =
     (let h = Values_Set (Values_Set (header w) ''Content-Type'' ''text/plain; charset=utf-8'')
                ''X-Content-Type-Options'' ''nosniff'';
          w1 = WriteHeader (w\<lparr>header := h\<rparr>) code
      in Fprint w1 (msg @ [CHR 0x0A]))"

text \<open>What the client receives: the status code and a field of the header sent.\<close>

definition status :: "ResponseWriter \<Rightarrow> nat option" where
  "status w = map_option fst (wroteHeader w)"

definition sent_header :: "ResponseWriter \<Rightarrow> string \<Rightarrow> string" where
  "sent_header w key = (case wroteHeader w of None \<Rightarrow> [] | Some (code, h) \<Rightarrow> Values_Get h key)"

section \<open>The MinIO client\<close>

text \<open>
  The MinIO client is outside the repository. What the handler sees of it: the result of
  \<open>GetObject\<close> for a bucket and an object name, and for an object the result of \<open>Stat\<close>
  and the stored bytes as a reader.
\<close>

record ObjectInfo =
  UserMetadata :: "string \<rightharpoonup> string"

record Object =
  Stat :: "error + ObjectInfo"
  content :: Reader

record Client =
  GetObject :: "string \<Rightarrow> string \<Rightarrow> error + Object"

section \<open>Package main\<close>

definition BUCKET_NAME :: string where
  "BUCKET_NAME = ''challenge-taurus''"

text \<open>
  \<open>err.Error()\<close>: the messages of the repository's own errors; the text of an error of
  the standard library is given by the parameter \<open>lib\<close>.
\<close>

fun Error :: "(error \<Rightarrow> string) \<Rightarrow> error \<Rightarrow> string" where
  "Error lib (ErrUidInUse uid recommended) =
     ''UID '' @ FormatUint uid @ '' already used in the system, please retry with '' @ FormatUint recommended"
| "Error lib ErrTimedOut = ''UID generation timed out.''"
| "Error lib (ErrReadIV err) = ''unable to read iv: '' @ Error lib err"
| "Error lib (ErrDecrypt err) = ''error while decrypting stream: '' @ Error lib err"
| "Error lib err = lib err"

text \<open>
  \<open>fetchAndDecryptHandler\<close> on the global \<open>uidTracker\<close>. The result is the response
  writer after the handler and the names of the objects it asked \<open>GetObject\<close> for.
\<close>

definition fetchAndDecryptHandler ::
  "(error \<Rightarrow> string) \<Rightarrow> Client \<Rightarrow> StreamCipher \<Rightarrow> UidTracker \<Rightarrow> ResponseWriter \<Rightarrow> Request \<Rightarrow>
   (ResponseWriter \<times> string list) outcome option" where
  "fetchAndDecryptHandler lib minioClient cipher uidTracker w r =
     (let uidStr = Values_Get (Query r) ''uid''
      in if uidStr = [] then Some (Return (http_Error w ''Missing UID'' 400, []))
         else
           (case ParseUint uidStr of
              Inl err \<Rightarrow> Some (Return (http_Error w (Error lib err) 400, []))
            | Inr uid \<Rightarrow>
                if \<not> Contains uidTracker uid then
                  Some (Return (http_Error w
                    ''The MinIO bucket does not contain any object with the provided UID'' 404, []))
                else
                  (let objectName = uidStr
                   in case GetObject minioClient BUCKET_NAME objectName of
                        Inl err \<Rightarrow>
                          Some (Return (http_Error w ''Unable to fetch file from MinIO'' 500, [objectName]))
                      | Inr object \<Rightarrow>
                          (case Stat object of
                             Inl err \<Rightarrow>
                               Some (Return (http_Error w ''Failed to get object metadata'' 408, [objectName]))
                           | Inr objectInfo \<Rightarrow>
                               (case UserMetadata objectInfo ''Filename'' of
                                  None \<Rightarrow>
                                    Some (Return (http_Error w ''Filename not found in metadata'' 408,
                                      [objectName]))
                                | Some filename \<Rightarrow>
                                    (let h1 = Values_Set (header w) ''Content-Type'' ''application/octet-stream'';
                                         h2 = Values_Set h1 ''Content-Disposition''
                                                (''attachment; filename='' @ [CHR 0x22] @ filename @ [CHR 0x22]);
                                         w2 = w\<lparr>header := h2\<rparr>
                                     in case DecryptStream cipher ResponseWriter_Write (content object) w2 of
                                          None \<Rightarrow> None
                                        | Some (Panic e) \<Rightarrow> Some (Panic e)
                                        | Some (Return (Some err, rd, w3)) \<Rightarrow>
                                            Some (Return (http_Error w3 ''Error during decryption'' 500,
                                              [objectName]))
                                        | Some (Return (None, rd, w3)) \<Rightarrow>
                                            Some (Return (Fprint w3
                                              (''File '' @ objectName @ '' streamed and decrypted successfully.''
                                                 @ [CHR 0x0A]), [objectName]))))))))"

text \<open>
  \<open>getUniqueObjectName\<close>: the context \<open>ctx\<close> is the one made by \<open>context.WithTimeout\<close>,
  done or not when \<open>GenerateAndAdd\<close> looks at it.
\<close>

definition getUniqueObjectName ::
  "(error \<Rightarrow> string) \<Rightarrow> UidTracker \<Rightarrow> Rand \<Rightarrow> Context \<Rightarrow> ResponseWriter \<Rightarrow> Request \<Rightarrow>
   ((string \<times> bool) \<times> ResponseWriter \<times> UidTracker \<times> Rand) outcome option" where
  "getUniqueObjectName lib uidTracker g ctx w r =
     (case Header r ''Uid'' of
        Some uidStr \<Rightarrow>
          (case uidStr of
             [] \<Rightarrow> Some (Panic ErrIndexOutOfRange)
           | u # _ \<Rightarrow>
               (case ParseUint u of
                  Inl err \<Rightarrow>
                    Some (Return (([], True),
                      http_Error w ''The UID provided in the header cannot be parsed as a uint64.'' 412,
                      uidTracker, g))
                | Inr suggestedUid \<Rightarrow>
                    (case AddUid uidTracker g suggestedUid of
                       None \<Rightarrow> None
                     | Some (Panic e) \<Rightarrow> Some (Panic e)
                     | Some (Return ((added, Some err), t', g')) \<Rightarrow>
                         Some (Return (([], True), http_Error w (Error lib err) 409, t', g'))
                     | Some (Return ((added, None), t', g')) \<Rightarrow>
                         Some (Return ((FormatUint added, False), w, t', g')))))
      | None \<Rightarrow>
          (case GenerateAndAdd uidTracker g ctx of
             Panic e \<Rightarrow> Some (Panic e)
           | Return ((added, Some err), t', g') \<Rightarrow>
               Some (Return (([], True), http_Error w (Error lib err) 500, t', g'))
           | Return ((added, None), t', g') \<Rightarrow>
               Some (Return ((FormatUint added, False), w, t', g'))))"

text \<open>
  \<open>uploadHandler\<close> up to the point where it starts its three goroutines: it has either
  answered the request, or it goes on to stream the body under the object name and the
  size given to MinIO.
\<close>

datatype upload = Responded ResponseWriter | Pipeline string int64 ResponseWriter

definition uploadHandler ::
  "(error \<Rightarrow> string) \<Rightarrow> UidTracker \<Rightarrow> Rand \<Rightarrow> Context \<Rightarrow> ResponseWriter \<Rightarrow> Request \<Rightarrow>
   (upload \<times> UidTracker \<times> Rand) outcome option" where
  "uploadHandler lib uidTracker g ctx w r =
     (case (case Header r ''File-Size'' of None \<Rightarrow> [] | Some vs \<Rightarrow> vs) of
        [] \<Rightarrow> Some (Panic ErrIndexOutOfRange)
      | v # _ \<Rightarrow>
          (case ParseInt v of
             Inl err \<Rightarrow>
               Some (Return (Responded
                 (http_Error w ''File-Size in header should be the file size in bytes'' 412), uidTracker, g))
           | Inr fileSize \<Rightarrow>
               (let minioDataSize = fileSize + 16
                in case getUniqueObjectName lib uidTracker g ctx w r of
                     None \<Rightarrow> None
                   | Some (Panic e) \<Rightarrow> Some (Panic e)
                   | Some (Return ((objectName, errOccurred), w', t', g')) \<Rightarrow>
                       if errOccurred then Some (Return (Responded w', t', g'))
                       else Some (Return (Pipeline objectName minioDataSize w', t', g')))))"

text \<open>A client, objects and requests to run the handlers on.\<close>

definition test_errors :: "error \<Rightarrow> string" where
  "test_errors e = ''error''"

definition stored_object :: Object where
  "stored_object =
     \<lparr>Stat = Inr \<lparr>UserMetadata = [''Filename'' \<mapsto> ''a.txt'']\<rparr>,
      content = NewReader [1, 2, 3, 4, 5, 6, 7, 8, 9, 10, 11, 12, 13, 14, 15, 255, 119, 99, 122, 120]\<rparr>"

definition missing_object :: Object where
  "missing_object = \<lparr>Stat = Inl (ErrIO ''The specified key does not exist.''), content = NewReader []\<rparr>"

definition short_object :: Object where
  "short_object =
     \<lparr>Stat = Inr \<lparr>UserMetadata = [''Filename'' \<mapsto> ''b.txt'']\<rparr>, content = NewReader [1, 2, 3]\<rparr>"

definition test_client :: Client where
  "test_client =
     \<lparr>GetObject = (\<lambda>bucket name.
        if name = ''32'' then Inr stored_object
        else if name = ''48'' then Inr missing_object
        else if name = ''326'' then Inr short_object
        else Inl (ErrIO ''connection refused''))\<rparr>"

text \<open>The status code of the response of a handler call that returned.\<close>

definition response_status :: "(ResponseWriter \<times> string list) outcome option \<Rightarrow> nat option" where
  "response_status res = (case res of Some (Return (w, gets)) \<Rightarrow> status w | _ \<Rightarrow> None)"

definition fetch_request :: "string \<Rightarrow> Request" where
  "fetch_request u = \<lparr>Header = Map.empty, Query = [''uid'' \<mapsto> [u]]\<rparr>"

section \<open>Properties of the UidTracker\<close>

lemma dom_fold_upd: "dom (fold (\<lambda>elem m. m(elem \<mapsto> True)) xs m0) = dom m0 \<union> set xs"
  by (induction xs arbitrary: m0) auto

text \<open>
  C7. After \<open>Init\<close> with a sequence \<open>S\<close>, whatever the tracker held before, \<open>Contains x\<close>
  is true exactly for the values \<open>x\<close> that occur in \<open>S\<close>.
\<close>

theorem Init_Contains: "Contains (Init t S) x = (x \<in> set S)"
proof -
  have "uids (Init t S) = Some (fold (\<lambda>elem m. m(elem \<mapsto> True)) S Map.empty)"
    by (simp add: Init_def)
  moreover have "dom (fold (\<lambda>elem m. m(elem \<mapsto> True)) S Map.empty) = set S"
    by (simp add: dom_fold_upd)
  ultimately show ?thesis
    by (auto simp: Contains_def lookup_def dom_def)
qed

text \<open>
  C6. \<open>GenerateAndAdd\<close> called with a context that is already done returns the
  time-out error, and neither the uid map nor the generator changes.
\<close>

theorem GenerateAndAdd_timeout:
  "Done ctx \<Longrightarrow> GenerateAndAdd t g ctx = Return ((0, Some ErrTimedOut), t, g)"
  by (simp add: GenerateAndAdd_def)

theorem GenerateAndAdd_timeout_witness:
  "Done \<lparr>Done = True\<rparr> \<and>
   GenerateAndAdd (Init empty_tracker [32, 48]) (const_rand 7) \<lparr>Done = True\<rparr>
     = Return ((0, Some ErrTimedOut), Init empty_tracker [32, 48], const_rand 7)"
  using GenerateAndAdd_timeout [of "\<lparr>Done = True\<rparr>" "Init empty_tracker [32, 48]" "const_rand 7"]
  by simp

subsection \<open>The recommendation loop of \<open>AddUid\<close>\<close>

text \<open>
  If the draw number \<open>k\<close> from now is the first one outside the map, the loop returns it
  and has used \<open>k + 1\<close> draws.
\<close>

lemma recommend_first:
  "lookup t (draws g (used g + k)) = None \<Longrightarrow> \<forall>j<k. lookup t (draws g (used g + j)) \<noteq> None \<Longrightarrow>
   recommend t g = Some (draws g (used g + k), g\<lparr>used := used g + Suc k\<rparr>)"
proof (induction k arbitrary: g)
  case 0
  then show ?case
    by (subst recommend.simps) (simp add: Uint64_def)
next
  case (Suc k)
  let ?g' = "g\<lparr>used := Suc (used g)\<rparr>"
  from Suc.prems have busy: "lookup t (draws g (used g)) \<noteq> None"
    by (auto dest: spec [of _ 0])
  have free: "lookup t (draws ?g' (used ?g' + k)) = None"
    using Suc.prems(1) by simp
  have rest: "\<forall>j<k. lookup t (draws ?g' (used ?g' + j)) \<noteq> None"
  proof (intro allI impI)
    fix j assume "j < k"
    then have "Suc j < Suc k" by simp
    with Suc.prems(2) have "lookup t (draws g (used g + Suc j)) \<noteq> None" by blast
    then show "lookup t (draws ?g' (used ?g' + j)) \<noteq> None" by simp
  qed
  have "recommend t g = recommend t ?g'"
    using busy by (subst recommend.simps) (auto simp: Uint64_def Let_def)
  also have "\<dots> = Some (draws ?g' (used ?g' + k), ?g'\<lparr>used := used ?g' + Suc k\<rparr>)"
    by (rule Suc.IH [OF free rest])
  finally show ?case by simp
qed

text \<open>Whenever the loop returns, it returns the first draw outside the map.\<close>

lemma recommend_sound:
  assumes ret: "recommend t g = Some r"
  shows "\<exists>k. r = (draws g (used g + k), g\<lparr>used := used g + Suc k\<rparr>) \<and>
       lookup t (draws g (used g + k)) = None \<and> (\<forall>j<k. lookup t (draws g (used g + j)) \<noteq> None)"
proof -
  let ?P = "\<lambda>t g r. \<exists>k. r = (draws g (used g + k), g\<lparr>used := used g + Suc k\<rparr>) \<and>
       lookup t (draws g (used g + k)) = None \<and> (\<forall>j<k. lookup t (draws g (used g + j)) \<noteq> None)"
  have "?P t g r"
  proof (rule recommend.raw_induct [where P = ?P, OF _ ret])
    fix rec t g r
    assume IH: "\<And>t g y. rec t g = Some y \<Longrightarrow> ?P t g y"
      and eq: "(let recommended = fst (Uint64 g); g' = snd (Uint64 g)
                in if lookup t recommended = None then Some (recommended, g') else rec t g') = Some r"
    show "?P t g r"
    proof (cases "lookup t (draws g (used g)) = None")
      case True
      with eq have "r = (draws g (used g), g\<lparr>used := Suc (used g)\<rparr>)"
        by (simp add: Uint64_def)
      with True show ?thesis
        by (intro exI [of _ 0]) simp
    next
      case False
      let ?g' = "g\<lparr>used := Suc (used g)\<rparr>"
      from False eq have "rec t ?g' = Some r"
        by (auto simp: Uint64_def Let_def)
      from IH [OF this] obtain k where
        k: "r = (draws ?g' (used ?g' + k), ?g'\<lparr>used := used ?g' + Suc k\<rparr>)"
           "lookup t (draws ?g' (used ?g' + k)) = None"
           "\<forall>j<k. lookup t (draws ?g' (used ?g' + j)) \<noteq> None"
        by blast
      have "\<forall>j<Suc k. lookup t (draws g (used g + j)) \<noteq> None"
      proof (intro allI impI)
        fix j assume "j < Suc k"
        show "lookup t (draws g (used g + j)) \<noteq> None"
        proof (cases j)
          case 0 with False show ?thesis by simp
        next
          case (Suc i)
          with \<open>j < Suc k\<close> k(3) show ?thesis by auto
        qed
      qed
      with k(1,2) show ?thesis
        by (intro exI [of _ "Suc k"]) simp
    qed
  qed
  then show ?thesis .
qed

lemma recommend_returns_iff: "(recommend t g \<noteq> None) = (\<exists>k. lookup t (draws g (used g + k)) = None)"
proof
  assume "recommend t g \<noteq> None"
  then obtain r where "recommend t g = Some r" by auto
  from recommend_sound [OF this] show "\<exists>k. lookup t (draws g (used g + k)) = None" by blast
next
  assume ex: "\<exists>k. lookup t (draws g (used g + k)) = None"
  define k where "k = (LEAST k. lookup t (draws g (used g + k)) = None)"
  have free: "lookup t (draws g (used g + k)) = None"
    unfolding k_def using ex by (rule LeastI_ex)
  have "\<forall>j<k. lookup t (draws g (used g + j)) \<noteq> None"
    unfolding k_def using not_less_Least by blast
  from recommend_first [OF free this] show "recommend t g \<noteq> None" by simp
qed




text \<open>
  C1. On the tracker of \<open>TestGenerateAndAdd\<close>, with a live context and a draw that hits
  the reserved uid 32, \<open>GenerateAndAdd\<close> falls out of the \<open>select\<close> and returns uid 0
  with a nil error; the map is unchanged and 0 is not in it.
\<close>

theorem GenerateAndAdd_collision:
  "\<not> Done \<lparr>Done = False\<rparr> \<and>
   GenerateAndAdd test_tracker (const_rand 32) \<lparr>Done = False\<rparr>
     = Return ((0, None), test_tracker, (const_rand 32)\<lparr>used := 1\<rparr>) \<and>
   \<not> Contains test_tracker 0"
  by (simp add: GenerateAndAdd_def Uint64_def const_rand_def test_tracker_def Init_def
      empty_tracker_def Contains_def lookup_def)

text \<open>
  C10. For a candidate that is in the map, \<open>AddUid\<close> returns exactly when some later draw
  is outside the map; so it returns only if the map does not hold every 64-bit value.
  Whenever the map has a free value, for every \<open>n\<close> there is a generator on which the
  call returns after exactly \<open>n + 1\<close> draws: no constant bounds the draws of one call.
\<close>

theorem AddUid_termination:
  assumes "lookup t uid \<noteq> None"
  shows "((AddUid t g uid \<noteq> None) = (\<exists>k. lookup t (draws g (used g + k)) = None)) \<and>
         (AddUid t g uid \<noteq> None \<longrightarrow> (\<exists>x. lookup t x = None)) \<and>
         ((\<exists>x. lookup t x = None) \<longrightarrow>
            (\<forall>n. \<exists>g0 r g'. AddUid t g0 uid = Some (Return (r, t, g')) \<and> used g' = used g0 + Suc n)) \<and>
         (\<forall>e. AddUid t g uid \<noteq> Some (Panic e))"
proof (intro conjI impI allI)
  have ret: "(AddUid t g uid \<noteq> None) = (recommend t g \<noteq> None)"
    using assms by (auto simp: AddUid_def split: option.splits)
  then show iff: "(AddUid t g uid \<noteq> None) = (\<exists>k. lookup t (draws g (used g + k)) = None)"
    by (simp only: recommend_returns_iff)
  assume "AddUid t g uid \<noteq> None"
  with iff show "\<exists>x. lookup t x = None" by blast
next
  fix n
  assume "\<exists>x. lookup t x = None"
  then obtain x where x: "lookup t x = None" ..
  define g0 where "g0 = \<lparr>draws = (\<lambda>i. if i < n then uid else x), used = 0\<rparr>"
  have free: "lookup t (draws g0 (used g0 + n)) = None"
    using x by (simp add: g0_def)
  have busy: "\<forall>j<n. lookup t (draws g0 (used g0 + j)) \<noteq> None"
    using assms by (simp add: g0_def)
  have "AddUid t g0 uid
          = Some (Return ((0, Some (ErrUidInUse uid x)), t, g0\<lparr>used := used g0 + Suc n\<rparr>))"
    using assms recommend_first [OF free busy] by (simp add: AddUid_def g0_def)
  then show "\<exists>g0 r g'. AddUid t g0 uid = Some (Return (r, t, g')) \<and> used g' = used g0 + Suc n"
    by (intro exI [of _ g0]) simp
next
  fix e
  show "AddUid t g uid \<noteq> Some (Panic e)"
    using assms by (auto simp: AddUid_def split: option.splits)
qed

theorem AddUid_termination_witness:
  "lookup test_tracker 326 \<noteq> None \<and>
   AddUid test_tracker (seq_rand [48, 48, 5]) 326 \<noteq> None \<and>
   (\<exists>k. lookup test_tracker (draws (seq_rand [48, 48, 5]) (used (seq_rand [48, 48, 5]) + k)) = None) \<and>
   (\<exists>x. lookup test_tracker x = None) \<and>
   (\<exists>g0 r g'. AddUid test_tracker g0 326 = Some (Return (r, test_tracker, g')) \<and>
      used g' = used g0 + Suc 1000)"
proof -
  have a: "lookup test_tracker 326 \<noteq> None"
    by (simp add: test_tracker_def Init_def empty_tracker_def lookup_def)
  have "lookup test_tracker (draws (seq_rand [48, 48, 5]) (used (seq_rand [48, 48, 5]) + 2)) = None"
    by (simp add: test_tracker_def Init_def empty_tracker_def seq_rand_def lookup_def)
  then have b: "\<exists>k. lookup test_tracker (draws (seq_rand [48, 48, 5]) (used (seq_rand [48, 48, 5]) + k)) = None"
    by blast
  from a b AddUid_termination [OF a, of "seq_rand [48, 48, 5]"]
  show ?thesis by blast
qed

section \<open>Properties of the stream cipher\<close>

lemma length_Encrypt: "length (Encrypt blk c) = 16"
  by (simp add: Encrypt_def block_bytes_def)

lemma ksf_NewCTR: "ksf (NewCTR blk iv) i = CTR_keystream blk iv i"
  by (simp add: ksf_def NewCTR_def CTR_keystream_def)

lemma ksf_refill:
  assumes "out x = []"
  shows "ksf (refill x) i = ksf x i"
proof (cases "i < 16")
  case True
  then show ?thesis
    using assms by (simp add: ksf_def refill_def length_Encrypt)
next
  case False
  then obtain j where j: "i = 16 + j"
    by (metis le_add_diff_inverse not_less)
  have "(16 + j) div 16 = Suc (j div 16)"
    by simp
  then have "(incr ^^ (j div 16)) (incr (ctr x)) = (incr ^^ ((16 + j) div 16)) (ctr x)"
    by (simp only: funpow_Suc_right o_apply)
  then show ?thesis
    using assms by (simp add: ksf_def refill_def length_Encrypt j)
qed

lemma ksf_tl:
  assumes "out x \<noteq> []"
  shows "ksf (x\<lparr>out := tl (out x)\<rparr>) i = ksf x (Suc i)" and "hd (out x) = ksf x 0"
proof -
  from assms obtain k ks where "out x = k # ks"
    by (cases "out x") auto
  then show "ksf (x\<lparr>out := tl (out x)\<rparr>) i = ksf x (Suc i)" and "hd (out x) = ksf x 0"
    by (simp_all add: ksf_def)
qed

lemma out_refill: "out (refill x) \<noteq> []"
  using length_Encrypt [of "blk_fn x" "ctr x"] by (auto simp: refill_def)

lemma XORKeyStream_ksf:
  "length (fst (XORKeyStream x src)) = length src \<and>
   (\<forall>i<length src. fst (XORKeyStream x src) ! i = src ! i XOR ksf x i) \<and>
   (\<forall>i. ksf (snd (XORKeyStream x src)) i = ksf x (length src + i))"
proof (induction src arbitrary: x)
  case Nil
  show ?case by simp
next
  case (Cons s src)
  define x1 where "x1 = (if out x = [] then refill x else x)"
  define x2 where "x2 = x1\<lparr>out := tl (out x1)\<rparr>"
  have ne: "out x1 \<noteq> []"
    by (simp add: x1_def out_refill)
  have k1: "ksf x1 i = ksf x i" for i
    by (simp add: x1_def ksf_refill)
  have k2: "ksf x2 i = ksf x (Suc i)" for i
    unfolding x2_def using ksf_tl(1) [OF ne] k1 by simp
  have h: "hd (out x1) = ksf x 0"
    using ksf_tl(2) [OF ne] k1 by simp
  have unf: "XORKeyStream x (s # src) =
      ((s XOR ksf x 0) # fst (XORKeyStream x2 src), snd (XORKeyStream x2 src))"
    by (simp add: x1_def [symmetric] x2_def [symmetric] h Let_def case_prod_beta)
  note IH = Cons.IH [of x2]
  show ?case
  proof (intro conjI allI impI)
    show "length (fst (XORKeyStream x (s # src))) = length (s # src)"
      unfolding unf using IH by simp
  next
    fix i assume "i < length (s # src)"
    then show "fst (XORKeyStream x (s # src)) ! i = (s # src) ! i XOR ksf x i"
      unfolding unf using IH k2 by (cases i) simp_all
  next
    fix i
    show "ksf (snd (XORKeyStream x (s # src))) i = ksf x (length (s # src) + i)"
      unfolding unf using IH k2 by simp
  qed
qed

lemma XORKeyStream_length: "length (fst (XORKeyStream x src)) = length src"
  using XORKeyStream_ksf by blast

lemma XORKeyStream_append:
  "XORKeyStream x (u @ v) =
     (fst (XORKeyStream x u) @ fst (XORKeyStream (snd (XORKeyStream x u)) v),
      snd (XORKeyStream (snd (XORKeyStream x u)) v))"
  by (induction u arbitrary: x) (simp_all add: Let_def case_prod_beta)

lemma XORKeyStream_NewCTR: "fst (XORKeyStream (NewCTR blk iv) P) = CTR_xor blk iv P"
  by (rule nth_equalityI) (simp_all add: XORKeyStream_ksf CTR_xor_def ksf_NewCTR)

lemma word_xor_cancel: "(p XOR k) XOR k = (p::byte)"
  by (simp add: xor.assoc)

lemma rsize_tl: "chunks r = c # cs \<Longrightarrow> rsize (r\<lparr>chunks := cs\<rparr>) < rsize r"
  by (simp add: rsize_def)

lemma rsize_drop:
  "chunks r = c # cs \<Longrightarrow> 0 < n \<Longrightarrow> n < length c \<Longrightarrow> rsize (r\<lparr>chunks := drop n c # cs\<rparr>) < rsize r"
  by (simp add: rsize_def)

lemma copyBuffer_StreamWriter:
  "copyBuffer (StreamWriter_Write Buffer_Write) Read (x, w) r n =
     Some ((n + length (concat (chunks r)), if rerr r = EOF then None else Some (rerr r)),
           (snd (XORKeyStream x (concat (chunks r))), w @ fst (XORKeyStream x (concat (chunks r)))),
           r\<lparr>chunks := []\<rparr>)"
proof (induction "rsize r" arbitrary: r x w n rule: less_induct)
  case less
  show ?case
  proof (cases "chunks r")
    case Nil
    then show ?thesis
      by (subst copyBuffer.simps) (simp add: Read_def)
  next
    case (Cons c cs)
    consider (empty) "c = []" | (whole) "c \<noteq> []" "length c \<le> 32768" | (part) "32768 < length c"
      by linarith
    then show ?thesis
    proof cases
      case empty
      let ?r = "r\<lparr>chunks := cs\<rparr>"
      have rd: "Read r 32768 = (([], None), ?r)"
        using Cons empty by (simp add: Read_def)
      have "copyBuffer (StreamWriter_Write Buffer_Write) Read (x, w) r n
              = copyBuffer (StreamWriter_Write Buffer_Write) Read (x, w) ?r n"
        by (subst copyBuffer.simps) (simp add: rd)
      also note less.hyps [OF rsize_tl [OF Cons]]
      finally show ?thesis
        using Cons empty by simp
    next
      case whole
      let ?r = "r\<lparr>chunks := cs\<rparr>"
      let ?x = "snd (XORKeyStream x c)"
      let ?w = "w @ fst (XORKeyStream x c)"
      have rd: "Read r 32768 = ((c, None), ?r)"
        using Cons whole by (simp add: Read_def)
      have wr: "StreamWriter_Write Buffer_Write (x, w) c = ((length c, None), (?x, ?w))"
        by (simp add: StreamWriter_Write_def Buffer_Write_def case_prod_beta XORKeyStream_length)
      have "copyBuffer (StreamWriter_Write Buffer_Write) Read (x, w) r n
              = copyBuffer (StreamWriter_Write Buffer_Write) Read (?x, ?w) ?r (n + length c)"
        using whole by (subst copyBuffer.simps) (simp add: rd wr)
      also note less.hyps [OF rsize_tl [OF Cons]]
      finally show ?thesis
        using Cons by (simp add: XORKeyStream_append)
    next
      case part
      let ?c = "take 32768 c"
      let ?r = "r\<lparr>chunks := drop 32768 c # cs\<rparr>"
      let ?x = "snd (XORKeyStream x ?c)"
      let ?w = "w @ fst (XORKeyStream x ?c)"
      have ne: "?c \<noteq> []"
        using part by auto
      have rd: "Read r 32768 = ((?c, None), ?r)"
        using Cons part by (simp add: Read_def)
      have wr: "StreamWriter_Write Buffer_Write (x, w) ?c = ((length ?c, None), (?x, ?w))"
        by (simp add: StreamWriter_Write_def Buffer_Write_def case_prod_beta XORKeyStream_length)
      have split: "concat (chunks r) = ?c @ concat (chunks ?r)"
        using Cons by simp
      have "copyBuffer (StreamWriter_Write Buffer_Write) Read (x, w) r n
              = copyBuffer (StreamWriter_Write Buffer_Write) Read (?x, ?w) ?r (n + length ?c)"
        using ne by (subst copyBuffer.simps) (simp add: rd wr)
      also note less.hyps [OF rsize_drop [OF Cons _ part]]
      finally show ?thesis
        by (simp add: split XORKeyStream_append del: append_take_drop_id)
    qed
  qed
qed

lemma copyBuffer_StreamReader_app:
  assumes wr: "\<And>w p. wr w p = ((length p, None), app w p)"
    and app: "\<And>w p q. app (app w p) q = app w (p @ q)"
  shows "copyBuffer wr StreamReader_Read w (x, r) n =
     Some ((n + length (concat (chunks r)), if rerr r = EOF then None else Some (rerr r)),
           (if concat (chunks r) = [] then w else app w (fst (XORKeyStream x (concat (chunks r))))),
           (snd (XORKeyStream x (concat (chunks r))), r\<lparr>chunks := []\<rparr>))"
proof (induction "rsize r" arbitrary: r x w n rule: less_induct)
  case less
  show ?case
  proof (cases "chunks r")
    case Nil
    then show ?thesis
      by (subst copyBuffer.simps) (simp add: StreamReader_Read_def Read_def)
  next
    case (Cons c cs)
    have step: "copyBuffer wr StreamReader_Read w (x, r) n =
        Some ((n + length (concat (chunks r)), if rerr r = EOF then None else Some (rerr r)),
              (if concat (chunks r) = [] then w else app w (fst (XORKeyStream x (concat (chunks r))))),
              (snd (XORKeyStream x (concat (chunks r))), r\<lparr>chunks := []\<rparr>))"
      if rd: "Read r 32768 = ((u, None), r')" and ne: "u \<noteq> []"
        and data: "concat (chunks r) = u @ concat (chunks r')" and small: "rsize r' < rsize r"
        and same: "rerr r' = rerr r" "r'\<lparr>chunks := []\<rparr> = r\<lparr>chunks := []\<rparr>"
      for u r'
    proof -
      let ?x = "snd (XORKeyStream x u)"
      let ?p = "fst (XORKeyStream x u)"
      let ?rest = "concat (chunks r')"
      have p: "?p \<noteq> []"
        using ne XORKeyStream_length [of x u] by auto
      have sr: "StreamReader_Read (x, r) 32768 = ((?p, None), (?x, r'))"
        by (simp add: StreamReader_Read_def rd case_prod_beta)
      have "copyBuffer wr StreamReader_Read w (x, r) n
              = copyBuffer wr StreamReader_Read (app w ?p) (?x, r') (n + length u)"
        using p by (subst copyBuffer.simps) (simp add: sr wr XORKeyStream_length)
      also have "\<dots> =
          Some ((n + length u + length ?rest, if rerr r' = EOF then None else Some (rerr r')),
                app w (?p @ fst (XORKeyStream ?x ?rest)),
                (snd (XORKeyStream ?x ?rest), r'\<lparr>chunks := []\<rparr>))"
        unfolding less.hyps [OF small]
        by (cases "?rest = []") (simp_all add: app del: concat_eq_Nil_conv Nil_eq_concat_conv)
      finally show ?thesis
        using ne by (simp add: data same XORKeyStream_append del: concat_eq_Nil_conv Nil_eq_concat_conv)
    qed
    consider (empty) "c = []" | (whole) "c \<noteq> []" "length c \<le> 32768" | (part) "32768 < length c"
      by linarith
    then show ?thesis
    proof cases
      case empty
      let ?r = "r\<lparr>chunks := cs\<rparr>"
      have rd: "StreamReader_Read (x, r) 32768 = (([], None), (x, ?r))"
        using Cons empty by (simp add: StreamReader_Read_def Read_def)
      have "copyBuffer wr StreamReader_Read w (x, r) n = copyBuffer wr StreamReader_Read w (x, ?r) n"
        by (subst copyBuffer.simps) (simp add: rd)
      also note less.hyps [OF rsize_tl [OF Cons]]
      finally show ?thesis
        using Cons empty by simp
    next
      case whole
      show ?thesis
        using Cons whole by (intro step [of c "r\<lparr>chunks := cs\<rparr>"]) (simp_all add: Read_def rsize_def)
    next
      case part
      show ?thesis
        using Cons part
        by (intro step [of "take 32768 c" "r\<lparr>chunks := drop 32768 c # cs\<rparr>"])
           (auto simp: Read_def rsize_def)
    qed
  qed
qed

lemma copyBuffer_StreamReader:
  "copyBuffer Buffer_Write StreamReader_Read w (x, r) n =
     Some ((n + length (concat (chunks r)), if rerr r = EOF then None else Some (rerr r)),
           w @ fst (XORKeyStream x (concat (chunks r))),
           (snd (XORKeyStream x (concat (chunks r))), r\<lparr>chunks := []\<rparr>))"
  by (subst copyBuffer_StreamReader_app [where app = "(@)"])
     (simp_all add: Buffer_Write_def del: concat_eq_Nil_conv Nil_eq_concat_conv)

lemma ReadAtLeast_enough:
  "length got \<le> m \<Longrightarrow> m \<le> length got + length (concat (chunks r)) \<Longrightarrow>
   \<exists>r'. ReadAtLeast r got m = ((got @ take (m - length got) (concat (chunks r)), None), r') \<and>
        concat (chunks r') = drop (m - length got) (concat (chunks r)) \<and> rerr r' = rerr r"
proof (induction r got m rule: ReadAtLeast.induct)
  case (1 r got m)
  show ?case
  proof (cases "length got < m")
    case False
    with "1.prems" show ?thesis
      by (subst ReadAtLeast.simps) simp
  next
    case True
    with "1.prems" obtain c cs where Cons: "chunks r = c # cs"
      by (cases "chunks r") auto
    let ?k = "m - length got"
    show ?thesis
    proof (cases "length c \<le> ?k")
      case whole: True
      let ?r = "r\<lparr>chunks := cs\<rparr>"
      have rd: "Read r ?k = ((c, None), ?r)"
        using Cons whole by (simp add: Read_def)
      have "length (got @ c) \<le> m" "m \<le> length (got @ c) + length (concat (chunks ?r))"
        using whole True "1.prems" Cons by auto
      from "1.IH" [OF True rd [symmetric] refl refl this] obtain r' where
        r': "ReadAtLeast ?r (got @ c) m
               = (((got @ c) @ take (m - length (got @ c)) (concat (chunks ?r)), None), r')"
            "concat (chunks r') = drop (m - length (got @ c)) (concat (chunks ?r))" "rerr r' = rerr ?r"
        by blast
      have "ReadAtLeast r got m = ReadAtLeast ?r (got @ c) m"
        using True by (subst ReadAtLeast.simps) (simp add: rd)
      with r' whole Cons show ?thesis
        by simp
    next
      case part: False
      let ?r = "r\<lparr>chunks := drop ?k c # cs\<rparr>"
      have rd: "Read r ?k = ((take ?k c, None), ?r)"
        using Cons part by (simp add: Read_def)
      have "length (got @ take ?k c) \<le> m" "m \<le> length (got @ take ?k c) + length (concat (chunks ?r))"
        using part True "1.prems" Cons by auto
      from "1.IH" [OF True rd [symmetric] refl refl this] obtain r' where
        r': "ReadAtLeast ?r (got @ take ?k c) m
               = (((got @ take ?k c) @ take (m - length (got @ take ?k c)) (concat (chunks ?r)), None), r')"
            "concat (chunks r') = drop (m - length (got @ take ?k c)) (concat (chunks ?r))"
            "rerr r' = rerr ?r"
        by blast
      have "ReadAtLeast r got m = ReadAtLeast ?r (got @ take ?k c) m"
        using True by (subst ReadAtLeast.simps) (simp add: rd)
      with r' part Cons True show ?thesis
        by (simp add: min_def)
    qed
  qed
qed

lemma ReadFull_enough:
  assumes "n \<le> length (concat (chunks r))"
  obtains r' where "ReadFull r n = ((take n (concat (chunks r)), None), r')"
    and "concat (chunks r') = drop n (concat (chunks r))" and "rerr r' = rerr r"
  using ReadAtLeast_enough [of "[]" n r] assms by (auto simp: ReadFull_def)

lemma ReadAtLeast_short:
  "length got + length (concat (chunks r)) < m \<Longrightarrow>
   \<exists>e r'. ReadAtLeast r got m = ((got @ concat (chunks r), Some e), r')"
proof (induction r got m rule: ReadAtLeast.induct)
  case (1 r got m)
  then have lt: "length got < m"
    by simp
  show ?case
  proof (cases "chunks r")
    case Nil
    then show ?thesis
      using lt by (subst ReadAtLeast.simps) (simp add: Read_def)
  next
    case (Cons c cs)
    let ?r = "r\<lparr>chunks := cs\<rparr>"
    have whole: "length c \<le> m - length got"
      using "1.prems" Cons by simp
    then have rd: "Read r (m - length got) = ((c, None), ?r)"
      using Cons by (simp add: Read_def)
    have "length (got @ c) + length (concat (chunks ?r)) < m"
      using "1.prems" Cons by simp
    from "1.IH" [OF lt rd [symmetric] refl refl this] obtain e r' where
      "ReadAtLeast ?r (got @ c) m = (((got @ c) @ concat (chunks ?r), Some e), r')"
      by blast
    moreover have "ReadAtLeast r got m = ReadAtLeast ?r (got @ c) m"
      using lt by (subst ReadAtLeast.simps) (simp add: rd)
    ultimately show ?thesis
      using Cons by simp
  qed
qed

lemma DecryptStream_short:
  assumes "length (concat (chunks r)) < 16"
  shows "\<exists>e r'. DecryptStream c wr r w = Some (Return (Some (ErrReadIV e), r', w))"
proof -
  from ReadAtLeast_short [of "[]" r 16] assms obtain e r' where
    "ReadFull r 16 = ((concat (chunks r), Some e), r')"
    by (auto simp: ReadFull_def)
  then show ?thesis
    by (simp add: DecryptStream_def)
qed

lemma DecryptStream_app:
  assumes wr: "\<And>w p. wr w p = ((length p, None), app w p)"
    and app: "\<And>w p q. app (app w p) q = app w (p @ q)"
    and key: "block c = Some blk"
    and ct: "concat (chunks r) = iv @ ct" "length iv = 16"
    and eof: "rerr r = EOF"
  shows "\<exists>r'. DecryptStream c wr r w =
           Some (Return (None, r', if ct = [] then w else app w (CTR_xor blk iv ct)))"
proof -
  have "16 \<le> length (concat (chunks r))"
    using ct by simp
  then obtain r' where r': "ReadFull r 16 = ((take 16 (concat (chunks r)), None), r')"
    "concat (chunks r') = drop 16 (concat (chunks r))" "rerr r' = rerr r"
    by (rule ReadFull_enough)
  then show ?thesis
    using key eof ct
    by (simp add: DecryptStream_def Copy_def copyBuffer_StreamReader_app [where app = app, OF wr app]
        XORKeyStream_NewCTR del: concat_eq_Nil_conv Nil_eq_concat_conv)
qed

lemma EncryptStream_Buffer:
  assumes key: "block c = Some blk"
    and rnd: "16 \<le> length (concat (chunks rnd))"
    and eof: "rerr reader = EOF"
  shows "\<exists>rnd'. EncryptStream c rnd Buffer_Write reader w =
           Some (Return (None, rnd', reader\<lparr>chunks := []\<rparr>,
             w @ take 16 (concat (chunks rnd))
               @ CTR_xor blk (take 16 (concat (chunks rnd))) (concat (chunks reader))))"
proof -
  from rnd obtain rnd' where "ReadFull rnd 16 = ((take 16 (concat (chunks rnd)), None), rnd')"
    by (rule ReadFull_enough)
  then show ?thesis
    using key eof
    by (simp add: EncryptStream_def Copy_def Buffer_Write_def copyBuffer_StreamWriter
        XORKeyStream_NewCTR)
qed

lemma DecryptStream_Buffer:
  assumes key: "block c = Some blk"
    and ct: "concat (chunks r) = iv @ ct" "length iv = 16"
    and eof: "rerr r = EOF"
  shows "\<exists>r'. DecryptStream c Buffer_Write r w = Some (Return (None, r', w @ CTR_xor blk iv ct))"
proof -
  have "16 \<le> length (concat (chunks r))"
    using ct by simp
  then obtain r' where r': "ReadFull r 16 = ((take 16 (concat (chunks r)), None), r')"
    "concat (chunks r') = drop 16 (concat (chunks r))" "rerr r' = rerr r"
    by (rule ReadFull_enough)
  then show ?thesis
    using key eof ct
    by (simp add: DecryptStream_def Copy_def copyBuffer_StreamReader XORKeyStream_NewCTR)
qed

lemma CTR_xor_involution: "CTR_xor blk iv (CTR_xor blk iv P) = P"
  by (rule nth_equalityI) (simp_all add: CTR_xor_def word_xor_cancel)

lemma length_CTR_xor: "length (CTR_xor blk iv P) = length P"
  by (simp add: CTR_xor_def)

text \<open>
  C4. On an initialised cipher, with a random source that delivers 16 bytes and a
  plaintext source that ends with \<open>EOF\<close>, \<open>EncryptStream\<close> returns no error and writes
  exactly the 16 bytes of the IV followed by the counter-mode XOR of the plaintext under
  that IV: \<open>16 + length P\<close> bytes, the first 16 being the IV. This holds for every
  chunking of the plaintext.
\<close>

theorem EncryptStream_layout:
  assumes "block c = Some blk"
    and "16 \<le> length (concat (chunks rnd))"
    and "rerr reader = EOF"
  shows "\<exists>rnd' reader' out.
           EncryptStream c rnd Buffer_Write reader [] = Some (Return (None, rnd', reader', out)) \<and>
           out = take 16 (concat (chunks rnd))
                   @ CTR_xor blk (take 16 (concat (chunks rnd))) (concat (chunks reader)) \<and>
           length out = 16 + length (concat (chunks reader)) \<and>
           take 16 out = take 16 (concat (chunks rnd))"
  using EncryptStream_Buffer [OF assms, of "[]"] assms(2) by (auto simp: length_CTR_xor)

theorem EncryptStream_layout_witness:
  "block test_cipher = Some (\<lambda>w. w * 3 + 7) \<and>
   16 \<le> length (concat (chunks test_rand)) \<and>
   rerr (NewReader [116, 101, 115, 116]) = EOF \<and>
   (\<exists>rnd' reader' out.
      EncryptStream test_cipher test_rand Buffer_Write (NewReader [116, 101, 115, 116]) []
        = Some (Return (None, rnd', reader', out)) \<and>
      out = [1, 2, 3, 4, 5, 6, 7, 8, 9, 10, 11, 12, 13, 14, 15, 255]
              @ CTR_xor (\<lambda>w. w * 3 + 7) [1, 2, 3, 4, 5, 6, 7, 8, 9, 10, 11, 12, 13, 14, 15, 255]
                  [116, 101, 115, 116] \<and>
      length out = 16 + length [116, 101, 115, 116 :: byte])"
proof -
  have a: "block test_cipher = Some (\<lambda>w. w * 3 + 7)"
    by (simp add: test_cipher_def)
  have b: "16 \<le> length (concat (chunks test_rand))"
    by (simp add: test_rand_def)
  have c: "rerr (NewReader [116, 101, 115, 116]) = EOF"
    by (simp add: NewReader_def)
  have d: "take 16 (concat (chunks test_rand)) = [1, 2, 3, 4, 5, 6, 7, 8, 9, 10, 11, 12, 13, 14, 15, 255]"
    by (simp add: test_rand_def)
  have e: "concat (chunks (NewReader [116, 101, 115, 116])) = [116, 101, 115, 116]"
    by (simp add: NewReader_def)
  from EncryptStream_layout [OF a b c] show ?thesis
    unfolding d e using a b c by simp
qed

text \<open>
  C3. For every plaintext (the empty one too) and every IV drawn, \<open>EncryptStream\<close> into a
  buffer succeeds, and \<open>DecryptStream\<close> with the same cipher on any reader that delivers
  the bytes written, in whatever chunks, returns no error and writes exactly the plaintext.
\<close>

theorem roundtrip:
  assumes "block c = Some blk"
    and "16 \<le> length (concat (chunks rnd))"
    and "rerr reader = EOF"
  shows "\<exists>rnd' reader' ct.
           EncryptStream c rnd Buffer_Write reader [] = Some (Return (None, rnd', reader', ct)) \<and>
           (\<forall>r. concat (chunks r) = ct \<longrightarrow> rerr r = EOF \<longrightarrow>
              (\<exists>r'. DecryptStream c Buffer_Write r [] = Some (Return (None, r', concat (chunks reader)))))"
proof -
  let ?iv = "take 16 (concat (chunks rnd))"
  let ?P = "concat (chunks reader)"
  let ?ct = "?iv @ CTR_xor blk ?iv ?P"
  from EncryptStream_Buffer [OF assms, of "[]"] obtain rnd' where
    enc: "EncryptStream c rnd Buffer_Write reader [] = Some (Return (None, rnd', reader\<lparr>chunks := []\<rparr>, ?ct))"
    by auto
  have len: "length ?iv = 16"
    using assms(2) by simp
  have "\<exists>r'. DecryptStream c Buffer_Write r [] = Some (Return (None, r', ?P))"
    if "concat (chunks r) = ?ct" "rerr r = EOF" for r
    using DecryptStream_Buffer [OF assms(1) that(1) len that(2), of "[]"]
    by (simp add: CTR_xor_involution)
  with enc show ?thesis
    by blast
qed

theorem roundtrip_witness:
  "block test_cipher = Some (\<lambda>w. w * 3 + 7) \<and>
   16 \<le> length (concat (chunks test_rand)) \<and>
   rerr \<lparr>chunks = [[116, 101], [], [115, 116]], rerr = EOF\<rparr> = EOF \<and>
   (\<exists>rnd' reader' ct.
      EncryptStream test_cipher test_rand Buffer_Write
          \<lparr>chunks = [[116, 101], [], [115, 116]], rerr = EOF\<rparr> []
        = Some (Return (None, rnd', reader', ct)) \<and>
      concat (chunks \<lparr>chunks = [take 3 ct, drop 3 ct], rerr = EOF\<rparr>) = ct \<and>
      (\<exists>r'. DecryptStream test_cipher Buffer_Write \<lparr>chunks = [take 3 ct, drop 3 ct], rerr = EOF\<rparr> []
              = Some (Return (None, r', [116, 101, 115, 116])))) \<and>
   rerr (NewReader []) = EOF \<and>
   (\<exists>rnd' reader' ct.
      EncryptStream test_cipher test_rand Buffer_Write (NewReader []) []
        = Some (Return (None, rnd', reader', ct)) \<and>
      (\<exists>r'. DecryptStream test_cipher Buffer_Write (NewReader ct) [] = Some (Return (None, r', []))))"
proof -
  let ?src = "\<lparr>chunks = [[116, 101], [], [115, 116 :: byte]], rerr = EOF\<rparr>"
  have a: "block test_cipher = Some (\<lambda>w. w * 3 + 7)"
    by (simp add: test_cipher_def)
  have b: "16 \<le> length (concat (chunks test_rand))"
    by (simp add: test_rand_def)
  have c: "rerr ?src = EOF" "rerr (NewReader []) = EOF"
    by (simp_all add: NewReader_def)
  have p: "concat (chunks ?src) = [116, 101, 115, 116]" "concat (chunks (NewReader [])) = []"
    by (simp_all add: NewReader_def)
  have d: "concat (chunks \<lparr>chunks = [take 3 ct, drop 3 ct], rerr = EOF\<rparr>) = ct \<and>
           rerr \<lparr>chunks = [take 3 ct, drop 3 ct], rerr = EOF\<rparr> = EOF \<and>
           concat (chunks (NewReader ct)) = ct \<and> rerr (NewReader ct) = EOF" for ct :: "byte list"
    by (simp add: NewReader_def)
  from roundtrip [OF a b c(1)] d have one:
    "\<exists>rnd' reader' ct.
      EncryptStream test_cipher test_rand Buffer_Write ?src [] = Some (Return (None, rnd', reader', ct)) \<and>
      concat (chunks \<lparr>chunks = [take 3 ct, drop 3 ct], rerr = EOF\<rparr>) = ct \<and>
      (\<exists>r'. DecryptStream test_cipher Buffer_Write \<lparr>chunks = [take 3 ct, drop 3 ct], rerr = EOF\<rparr> []
              = Some (Return (None, r', [116, 101, 115, 116])))"
    unfolding p by blast
  from roundtrip [OF a b c(2)] d have two:
    "\<exists>rnd' reader' ct.
      EncryptStream test_cipher test_rand Buffer_Write (NewReader []) []
        = Some (Return (None, rnd', reader', ct)) \<and>
      (\<exists>r'. DecryptStream test_cipher Buffer_Write (NewReader ct) [] = Some (Return (None, r', [])))"
    unfolding p by blast
  from a b c one two show ?thesis
    by blast
qed

lemma Init_StreamCipher_eq:
  "Init_StreamCipher aes c hexKey =
     (if length (fst (DecodeString hexKey)) \<in> {16, 24, 32}
      then Return (c\<lparr>block := Some (aes (fst (DecodeString hexKey)))\<rparr>)
      else Panic (ErrKeySize (length (fst (DecodeString hexKey)))))"
  by (simp add: Init_StreamCipher_def NewCipher_def Let_def)

lemma Decode_mistyped_key:
  "DecodeString mistyped_key
     = ([99, 104, 97, 110, 103, 101, 32, 116, 104, 105, 115, 32, 112, 97, 115, 115],
        Some (ErrInvalidByte CHR ''x''))"
  by (simp add: DecodeString_def mistyped_key_def fromHexChar_def)

text \<open>
  C8. The key of the package's test with its 34th digit mistyped as \<open>x\<close> is not valid
  hex: \<open>hex.DecodeString\<close> reports the invalid byte and returns the 16 bytes decoded before
  it. \<open>Init\<close> drops that error, \<open>aes.NewCipher\<close> accepts the 16 bytes, and the cipher is
  built from the first half of the key instead of failing.
\<close>

theorem Init_StreamCipher_mistyped_key:
  "snd (DecodeString mistyped_key) = Some (ErrInvalidByte CHR ''x'') \<and>
   Init_StreamCipher test_aes \<lparr>block = None\<rparr> mistyped_key
     = Return \<lparr>block = Some (test_aes
         [99, 104, 97, 110, 103, 101, 32, 116, 104, 105, 115, 32, 112, 97, 115, 115])\<rparr>"
  by (simp add: Init_StreamCipher_eq Decode_mistyped_key)

section \<open>Properties of the handlers\<close>

lemma ResponseWriter_append_append:
  "ResponseWriter_append (ResponseWriter_append w p) q = ResponseWriter_append w (p @ q)"
  by (simp add: ResponseWriter_append_def WriteHeader_def Let_def)

lemma status_http_Error: "wroteHeader w = None \<Longrightarrow> status (http_Error w msg code) = Some code"
  by (simp add: http_Error_def Fprint_def ResponseWriter_Write_def ResponseWriter_append_def
      WriteHeader_def status_def Let_def)

lemma ParseUint_nonempty: "ParseUint s = Inr uid \<Longrightarrow> s \<noteq> []"
  by (auto simp: ParseUint_def)

lemma fetch_bad_request:
  assumes "wroteHeader w = None"
    and "Values_Get (Query r) ''uid'' = [] \<or> (\<exists>e. ParseUint (Values_Get (Query r) ''uid'') = Inl e)"
  shows "\<exists>w'. fetchAndDecryptHandler lib minioClient cipher uidTracker w r = Some (Return (w', []))
              \<and> status w' = Some 400"
  using assms by (auto simp: fetchAndDecryptHandler_def status_http_Error Let_def)

lemma fetch_not_found:
  assumes "wroteHeader w = None"
    and "ParseUint (Values_Get (Query r) ''uid'') = Inr uid" and "\<not> Contains uidTracker uid"
  shows "\<exists>w'. fetchAndDecryptHandler lib minioClient cipher uidTracker w r = Some (Return (w', []))
              \<and> status w' = Some 404"
  using assms ParseUint_nonempty [OF assms(2)]
  by (simp add: fetchAndDecryptHandler_def status_http_Error Let_def)

lemma fetch_get_failed:
  assumes "wroteHeader w = None"
    and "ParseUint (Values_Get (Query r) ''uid'') = Inr uid" and "Contains uidTracker uid"
    and "GetObject minioClient BUCKET_NAME (Values_Get (Query r) ''uid'') = Inl e"
  shows "\<exists>w'. fetchAndDecryptHandler lib minioClient cipher uidTracker w r
                = Some (Return (w', [Values_Get (Query r) ''uid'']))
              \<and> status w' = Some 500"
  using assms ParseUint_nonempty [OF assms(2)]
  by (simp add: fetchAndDecryptHandler_def status_http_Error Let_def)

lemma fetch_metadata_failed:
  assumes "wroteHeader w = None"
    and "ParseUint (Values_Get (Query r) ''uid'') = Inr uid" and "Contains uidTracker uid"
    and "GetObject minioClient BUCKET_NAME (Values_Get (Query r) ''uid'') = Inr object"
    and "(\<exists>e. Stat object = Inl e) \<or> (\<exists>info. Stat object = Inr info \<and> UserMetadata info ''Filename'' = None)"
  shows "\<exists>w'. fetchAndDecryptHandler lib minioClient cipher uidTracker w r
                = Some (Return (w', [Values_Get (Query r) ''uid'']))
              \<and> status w' = Some 408"
  using assms ParseUint_nonempty [OF assms(2)]
  by (auto simp: fetchAndDecryptHandler_def status_http_Error Let_def)

lemma fetch_short_object:
  assumes "wroteHeader w = None"
    and "ParseUint (Values_Get (Query r) ''uid'') = Inr uid" and "Contains uidTracker uid"
    and "GetObject minioClient BUCKET_NAME (Values_Get (Query r) ''uid'') = Inr object"
    and "Stat object = Inr info" and "UserMetadata info ''Filename'' = Some filename"
    and "length (concat (chunks (content object))) < 16"
  shows "\<exists>w'. fetchAndDecryptHandler lib minioClient cipher uidTracker w r
                = Some (Return (w', [Values_Get (Query r) ''uid'']))
              \<and> status w' = Some 500"
proof -
  let ?w2 = "w\<lparr>header := Values_Set (Values_Set (header w) ''Content-Type'' ''application/octet-stream'')
              ''Content-Disposition'' (''attachment; filename='' @ [CHR 0x22] @ filename @ [CHR 0x22])\<rparr>"
  from DecryptStream_short [OF assms(7), where c = cipher and wr = ResponseWriter_Write and w = ?w2]
  obtain e r' where
    "DecryptStream cipher ResponseWriter_Write (content object) ?w2
       = Some (Return (Some (ErrReadIV e), r', ?w2))"
    by blast
  then show ?thesis
    using assms(1-6) ParseUint_nonempty [OF assms(2)]
    by (simp add: fetchAndDecryptHandler_def status_http_Error Let_def)
qed

lemma fetch_ok:
  assumes "wroteHeader w = None" and "block cipher = Some blk"
    and "ParseUint (Values_Get (Query r) ''uid'') = Inr uid" and "Contains uidTracker uid"
    and "GetObject minioClient BUCKET_NAME (Values_Get (Query r) ''uid'') = Inr object"
    and "Stat object = Inr info" and "UserMetadata info ''Filename'' = Some filename"
    and "16 \<le> length (concat (chunks (content object)))" and "rerr (content object) = EOF"
  shows "\<exists>w'. fetchAndDecryptHandler lib minioClient cipher uidTracker w r
                = Some (Return (w', [Values_Get (Query r) ''uid'']))
              \<and> status w' = Some 200
              \<and> sent_header w' ''Content-Disposition''
                  = ''attachment; filename='' @ [CHR 0x22] @ filename @ [CHR 0x22]
              \<and> body w' = body w
                  @ CTR_xor blk (take 16 (concat (chunks (content object))))
                      (drop 16 (concat (chunks (content object))))
                  @ bytes_of (''File '' @ Values_Get (Query r) ''uid''
                      @ '' streamed and decrypted successfully.'' @ [CHR 0x0A])"
proof -
  let ?w2 = "w\<lparr>header := Values_Set (Values_Set (header w) ''Content-Type'' ''application/octet-stream'')
              ''Content-Disposition'' (''attachment; filename='' @ [CHR 0x22] @ filename @ [CHR 0x22])\<rparr>"
  let ?data = "concat (chunks (content object))"
  let ?pt = "CTR_xor blk (take 16 ?data) (drop 16 ?data)"
  have split: "?data = take 16 ?data @ drop 16 ?data" "length (take 16 ?data) = 16"
    using assms(8) by simp_all
  from DecryptStream_app [where app = ResponseWriter_append and wr = ResponseWriter_Write,
      OF _ ResponseWriter_append_append assms(2) split assms(9), of ?w2]
  obtain r' where
    "DecryptStream cipher ResponseWriter_Write (content object) ?w2
       = Some (Return (None, r', if drop 16 ?data = [] then ?w2 else ResponseWriter_append ?w2 ?pt))"
    by (auto simp: ResponseWriter_Write_def)
  moreover have "drop 16 ?data = [] \<Longrightarrow> ?pt = []"
    by (simp add: CTR_xor_def)
  ultimately show ?thesis
    using assms(1-7) ParseUint_nonempty [OF assms(3)]
    by (simp add: fetchAndDecryptHandler_def Let_def Fprint_def ResponseWriter_Write_def
        ResponseWriter_append_def WriteHeader_def status_def sent_header_def Values_Get_def
        Values_Set_def del: append_take_drop_id)
qed

text \<open>
  C5 (as amended). On a fresh response writer and an initialised cipher the fetch handler
  answers: 400 when the \<open>uid\<close> parameter is missing or does not parse as a decimal uint64,
  and 404 when the parsed uid is not in the tracker, in both cases without any
  \<open>GetObject\<close>; 500 when \<open>GetObject\<close> fails; 408 when \<open>Stat\<close> of the object fails or its
  metadata has no \<open>Filename\<close>; 500 when the object is shorter than the 16-byte IV, so
  that decryption fails before anything is written; and, when the object can be read to
  its end, 200 with the header \<open>Content-Disposition: attachment; filename="<name>"\<close> and
  the decrypted bytes followed by the closing message as body.
\<close>

theorem fetchAndDecryptHandler_responses:
  assumes fresh: "wroteHeader w = None"
    and key: "block cipher = Some blk"
    and uidStr: "Values_Get (Query r) ''uid'' = uidStr"
    and res: "fetchAndDecryptHandler lib minioClient cipher uidTracker w r = res"
  shows
    "(uidStr = [] \<or> (\<exists>e. ParseUint uidStr = Inl e) \<longrightarrow>
        (\<exists>w'. res = Some (Return (w', [])) \<and> status w' = Some 400)) \<and>
     (\<forall>uid. ParseUint uidStr = Inr uid \<and> \<not> Contains uidTracker uid \<longrightarrow>
        (\<exists>w'. res = Some (Return (w', [])) \<and> status w' = Some 404)) \<and>
     (\<forall>uid e. ParseUint uidStr = Inr uid \<and> Contains uidTracker uid \<and>
          GetObject minioClient BUCKET_NAME uidStr = Inl e \<longrightarrow>
        (\<exists>w'. res = Some (Return (w', [uidStr])) \<and> status w' = Some 500)) \<and>
     (\<forall>uid object. ParseUint uidStr = Inr uid \<and> Contains uidTracker uid \<and>
          GetObject minioClient BUCKET_NAME uidStr = Inr object \<and>
          ((\<exists>e. Stat object = Inl e) \<or>
           (\<exists>info. Stat object = Inr info \<and> UserMetadata info ''Filename'' = None)) \<longrightarrow>
        (\<exists>w'. res = Some (Return (w', [uidStr])) \<and> status w' = Some 408)) \<and>
     (\<forall>uid object info filename. ParseUint uidStr = Inr uid \<and> Contains uidTracker uid \<and>
          GetObject minioClient BUCKET_NAME uidStr = Inr object \<and>
          Stat object = Inr info \<and> UserMetadata info ''Filename'' = Some filename \<and>
          length (concat (chunks (content object))) < 16 \<longrightarrow>
        (\<exists>w'. res = Some (Return (w', [uidStr])) \<and> status w' = Some 500)) \<and>
     (\<forall>uid object info filename. ParseUint uidStr = Inr uid \<and> Contains uidTracker uid \<and>
          GetObject minioClient BUCKET_NAME uidStr = Inr object \<and>
          Stat object = Inr info \<and> UserMetadata info ''Filename'' = Some filename \<and>
          16 \<le> length (concat (chunks (content object))) \<and> rerr (content object) = EOF \<longrightarrow>
        (\<exists>w'. res = Some (Return (w', [uidStr])) \<and> status w' = Some 200 \<and>
           sent_header w' ''Content-Disposition''
             = ''attachment; filename='' @ [CHR 0x22] @ filename @ [CHR 0x22] \<and>
           body w' = body w
             @ CTR_xor blk (take 16 (concat (chunks (content object))))
                 (drop 16 (concat (chunks (content object))))
             @ bytes_of (''File '' @ uidStr @ '' streamed and decrypted successfully.'' @ [CHR 0x0A])))"
proof (intro conjI allI impI)
  assume "uidStr = [] \<or> (\<exists>e. ParseUint uidStr = Inl e)"
  then show "\<exists>w'. res = Some (Return (w', [])) \<and> status w' = Some 400"
    using fetch_bad_request [OF fresh, of r lib minioClient cipher uidTracker]
    unfolding uidStr res by blast
next
  fix uid
  assume "ParseUint uidStr = Inr uid \<and> \<not> Contains uidTracker uid"
  then show "\<exists>w'. res = Some (Return (w', [])) \<and> status w' = Some 404"
    using fetch_not_found [OF fresh, of r uid uidTracker lib minioClient cipher]
    unfolding uidStr res by blast
next
  fix uid e
  assume "ParseUint uidStr = Inr uid \<and> Contains uidTracker uid \<and>
          GetObject minioClient BUCKET_NAME uidStr = Inl e"
  then show "\<exists>w'. res = Some (Return (w', [uidStr])) \<and> status w' = Some 500"
    using fetch_get_failed [OF fresh, of r uid uidTracker minioClient e lib cipher]
    unfolding uidStr res by blast
next
  fix uid object
  assume "ParseUint uidStr = Inr uid \<and> Contains uidTracker uid \<and>
          GetObject minioClient BUCKET_NAME uidStr = Inr object \<and>
          ((\<exists>e. Stat object = Inl e) \<or>
           (\<exists>info. Stat object = Inr info \<and> UserMetadata info ''Filename'' = None))"
  then show "\<exists>w'. res = Some (Return (w', [uidStr])) \<and> status w' = Some 408"
    using fetch_metadata_failed [OF fresh, of r uid uidTracker minioClient object lib cipher]
    unfolding uidStr res by blast
next
  fix uid object info filename
  assume "ParseUint uidStr = Inr uid \<and> Contains uidTracker uid \<and>
          GetObject minioClient BUCKET_NAME uidStr = Inr object \<and>
          Stat object = Inr info \<and> UserMetadata info ''Filename'' = Some filename \<and>
          length (concat (chunks (content object))) < 16"
  then show "\<exists>w'. res = Some (Return (w', [uidStr])) \<and> status w' = Some 500"
    using fetch_short_object [OF fresh, of r uid uidTracker minioClient object info filename lib cipher]
    unfolding uidStr res by blast
next
  fix uid object info filename
  assume "ParseUint uidStr = Inr uid \<and> Contains uidTracker uid \<and>
          GetObject minioClient BUCKET_NAME uidStr = Inr object \<and>
          Stat object = Inr info \<and> UserMetadata info ''Filename'' = Some filename \<and>
          16 \<le> length (concat (chunks (content object))) \<and> rerr (content object) = EOF"
  then show "\<exists>w'. res = Some (Return (w', [uidStr])) \<and> status w' = Some 200 \<and>
           sent_header w' ''Content-Disposition''
             = ''attachment; filename='' @ [CHR 0x22] @ filename @ [CHR 0x22] \<and>
           body w' = body w
             @ CTR_xor blk (take 16 (concat (chunks (content object))))
                 (drop 16 (concat (chunks (content object))))
             @ bytes_of (''File '' @ uidStr @ '' streamed and decrypted successfully.'' @ [CHR 0x0A])"
    using fetch_ok [OF fresh key, of r uid uidTracker minioClient object info filename lib]
    unfolding uidStr res by blast
qed

lemma ParseUint_32: "ParseUint ''32'' = Inr 32"
  by (simp add: ParseUint_def maxUint64_def)

lemma ParseUint_48: "ParseUint ''48'' = Inr 48"
  by (simp add: ParseUint_def maxUint64_def)

lemma ParseUint_5: "ParseUint ''5'' = Inr 5"
  by (simp add: ParseUint_def maxUint64_def)

lemma test_tracker_members: "Contains test_tracker 32" "Contains test_tracker 48" "\<not> Contains test_tracker 5"
  by (simp_all add: test_tracker_def Init_def empty_tracker_def Contains_def lookup_def)

text \<open>
  C9. For a request without a \<open>File-Size\<close> header the upload handler panics on the index
  \<open>[0]\<close> of the empty slice: it returns no response, so not the 412 response either.
\<close>

theorem uploadHandler_missing_File_Size:
  assumes "Header r ''File-Size'' = None"
  shows "uploadHandler lib uidTracker g ctx w r = Some (Panic ErrIndexOutOfRange) \<and>
         (\<forall>w' t' g'. uploadHandler lib uidTracker g ctx w r \<noteq> Some (Return (Responded w', t', g')))"
  using assms by (simp add: uploadHandler_def)

theorem uploadHandler_missing_File_Size_witness:
  "Header \<lparr>Header = [''Uid'' \<mapsto> [''1'']], Query = Map.empty\<rparr> ''File-Size'' = None \<and>
   uploadHandler test_errors test_tracker (const_rand 1) \<lparr>Done = False\<rparr> NewResponseWriter
     \<lparr>Header = [''Uid'' \<mapsto> [''1'']], Query = Map.empty\<rparr> = Some (Panic ErrIndexOutOfRange)"
proof -
  have "Header \<lparr>Header = [''Uid'' \<mapsto> [''1'']], Query = Map.empty\<rparr> ''File-Size'' = None"
    by simp
  from this uploadHandler_missing_File_Size [OF this] show ?thesis
    by blast
qed

text \<open>
  C5 as stated fails: for a reserved uid whose object cannot be \<open>Stat\<close>ed (a storage
  failure) the handler answers 408, not 500.
\<close>

theorem fetch_metadata_failure_counterexample:
  "Contains test_tracker 48 \<and>
   GetObject test_client BUCKET_NAME ''48'' = Inr missing_object \<and>
   Stat missing_object = Inl (ErrIO ''The specified key does not exist.'') \<and>
   response_status (fetchAndDecryptHandler test_errors test_client test_cipher test_tracker
       NewResponseWriter (fetch_request ''48'')) = Some 408"
proof -
  have q: "Values_Get (Query (fetch_request ''48'')) ''uid'' = ''48''"
    by (simp add: fetch_request_def Values_Get_def)
  have g: "GetObject test_client BUCKET_NAME ''48'' = Inr missing_object"
    by (simp add: test_client_def)
  have s: "Stat missing_object = Inl (ErrIO ''The specified key does not exist.'')"
    by (simp add: missing_object_def)
  have "\<exists>w'. fetchAndDecryptHandler test_errors test_client test_cipher test_tracker
            NewResponseWriter (fetch_request ''48'') = Some (Return (w', [''48''])) \<and> status w' = Some 408"
    using fetch_metadata_failed [where w = NewResponseWriter and r = "fetch_request ''48''"
        and uid = 48 and uidTracker = test_tracker and minioClient = test_client
        and object = missing_object and lib = test_errors and cipher = test_cipher]
      ParseUint_48 test_tracker_members(2) g s
    by (simp add: q NewResponseWriter_def)
  then have "response_status (fetchAndDecryptHandler test_errors test_client test_cipher test_tracker
       NewResponseWriter (fetch_request ''48'')) = Some 408"
    by (auto simp: response_status_def)
  with test_tracker_members(2) g s show ?thesis
    by blast
qed

lemma ParseUint_326: "ParseUint ''326'' = Inr 326"
  by (simp add: ParseUint_def maxUint64_def)

lemma ParseUint_12939303003: "ParseUint ''12939303003'' = Inr 12939303003"
  by (simp add: ParseUint_def maxUint64_def)

lemma test_tracker_more: "Contains test_tracker 326" "Contains test_tracker 12939303003"
  by (simp_all add: test_tracker_def Init_def empty_tracker_def Contains_def lookup_def)

lemma fetch_request_uid: "Values_Get (Query (fetch_request u)) ''uid'' = u"
  by (simp add: fetch_request_def Values_Get_def split: list.splits)

theorem fetchAndDecryptHandler_responses_witness:
  "(\<exists>w'. fetchAndDecryptHandler test_errors test_client test_cipher test_tracker NewResponseWriter
            \<lparr>Header = Map.empty, Query = Map.empty\<rparr> = Some (Return (w', [])) \<and>
         status w' = Some 400) \<and>
   (\<exists>w'. fetchAndDecryptHandler test_errors test_client test_cipher test_tracker NewResponseWriter
            (fetch_request ''5'') = Some (Return (w', [])) \<and>
         status w' = Some 404) \<and>
   (\<exists>w'. fetchAndDecryptHandler test_errors test_client test_cipher test_tracker NewResponseWriter
            (fetch_request ''12939303003'') = Some (Return (w', [''12939303003''])) \<and>
         status w' = Some 500) \<and>
   (\<exists>w'. fetchAndDecryptHandler test_errors test_client test_cipher test_tracker NewResponseWriter
            (fetch_request ''48'') = Some (Return (w', [''48''])) \<and>
         status w' = Some 408) \<and>
   (\<exists>w'. fetchAndDecryptHandler test_errors test_client test_cipher test_tracker NewResponseWriter
            (fetch_request ''326'') = Some (Return (w', [''326''])) \<and>
         status w' = Some 500) \<and>
   (\<exists>w'. fetchAndDecryptHandler test_errors test_client test_cipher test_tracker NewResponseWriter
            (fetch_request ''32'') = Some (Return (w', [''32''])) \<and>
         status w' = Some 200 \<and>
         sent_header w' ''Content-Disposition'' = ''attachment; filename='' @ [CHR 0x22] @ ''a.txt'' @ [CHR 0x22])"
proof -
  have fresh: "wroteHeader NewResponseWriter = None"
    by (simp add: NewResponseWriter_def)
  have key: "block test_cipher = Some (\<lambda>w. w * 3 + 7)"
    by (simp add: test_cipher_def)
  note inst = fetchAndDecryptHandler_responses [OF fresh key _ refl,
      where lib = test_errors and minioClient = test_client and uidTracker = test_tracker]
  have none: "Values_Get (Query \<lparr>Header = Map.empty, Query = Map.empty\<rparr>) ''uid'' = []"
    by (simp add: Values_Get_def)
  have c1: "\<exists>w'. fetchAndDecryptHandler test_errors test_client test_cipher test_tracker NewResponseWriter
            \<lparr>Header = Map.empty, Query = Map.empty\<rparr> = Some (Return (w', [])) \<and> status w' = Some 400"
    using inst [OF none] by blast
  have c2: "\<exists>w'. fetchAndDecryptHandler test_errors test_client test_cipher test_tracker NewResponseWriter
            (fetch_request ''5'') = Some (Return (w', [])) \<and> status w' = Some 404"
    using inst [OF fetch_request_uid [of "''5''"]] ParseUint_5 test_tracker_members(3) by blast
  have g3: "GetObject test_client BUCKET_NAME ''12939303003'' = Inl (ErrIO ''connection refused'')"
    by (simp add: test_client_def)
  have c3: "\<exists>w'. fetchAndDecryptHandler test_errors test_client test_cipher test_tracker NewResponseWriter
            (fetch_request ''12939303003'') = Some (Return (w', [''12939303003''])) \<and> status w' = Some 500"
    using inst [OF fetch_request_uid [of "''12939303003''"]] ParseUint_12939303003 test_tracker_more(2) g3
    by blast
  have g4: "GetObject test_client BUCKET_NAME ''48'' = Inr missing_object"
    "Stat missing_object = Inl (ErrIO ''The specified key does not exist.'')"
    by (simp_all add: test_client_def missing_object_def)
  have c4: "\<exists>w'. fetchAndDecryptHandler test_errors test_client test_cipher test_tracker NewResponseWriter
            (fetch_request ''48'') = Some (Return (w', [''48''])) \<and> status w' = Some 408"
    using inst [OF fetch_request_uid [of "''48''"]] ParseUint_48 test_tracker_members(2) g4
    by blast
  have g5: "GetObject test_client BUCKET_NAME ''326'' = Inr short_object"
    "Stat short_object = Inr \<lparr>UserMetadata = [''Filename'' \<mapsto> ''b.txt'']\<rparr>"
    "UserMetadata \<lparr>UserMetadata = [''Filename'' \<mapsto> ''b.txt'']\<rparr> ''Filename'' = Some ''b.txt''"
    "length (concat (chunks (content short_object))) < 16"
    by (simp_all add: test_client_def short_object_def NewReader_def)
  have c5: "\<exists>w'. fetchAndDecryptHandler test_errors test_client test_cipher test_tracker NewResponseWriter
            (fetch_request ''326'') = Some (Return (w', [''326''])) \<and> status w' = Some 500"
    using inst [OF fetch_request_uid [of "''326''"]] ParseUint_326 test_tracker_more(1) g5
    by blast
  have g6: "GetObject test_client BUCKET_NAME ''32'' = Inr stored_object"
    "Stat stored_object = Inr \<lparr>UserMetadata = [''Filename'' \<mapsto> ''a.txt'']\<rparr>"
    "UserMetadata \<lparr>UserMetadata = [''Filename'' \<mapsto> ''a.txt'']\<rparr> ''Filename'' = Some ''a.txt''"
    "16 \<le> length (concat (chunks (content stored_object)))"
    "rerr (content stored_object) = EOF"
    by (simp_all add: test_client_def stored_object_def NewReader_def)
  have c6: "\<exists>w'. fetchAndDecryptHandler test_errors test_client test_cipher test_tracker NewResponseWriter
            (fetch_request ''32'') = Some (Return (w', [''32''])) \<and> status w' = Some 200 \<and>
         sent_header w' ''Content-Disposition'' = ''attachment; filename='' @ [CHR 0x22] @ ''a.txt'' @ [CHR 0x22]"
    using inst [OF fetch_request_uid [of "''32''"]] ParseUint_32 test_tracker_members(1) g6
    by blast
  from c1 c2 c3 c4 c5 c6 show ?thesis
    by blast
qed

end
